theory Spec2Isabelle
  imports Complex_Main
begin

section \<open>Interval reconciliation: data model\<close>

text \<open>
  A status record of one asset, as the objects handled by \<^verbatim>\<open>ProductivitySystem\<close>.
  The source keeps \<^verbatim>\<open>start\<close> and \<^verbatim>\<open>end\<close> as date strings and reads them with
  \<^verbatim>\<open>new Date(...)\<close>; here they are the parsed values in milliseconds (records whose
  dates do not parse are dropped by \<^verbatim>\<open>validateJSONData\<close> before they reach this code).
  A field that may be \<^verbatim>\<open>undefined\<close> is an option. Numbers that the source computes in
  floating point (\<^verbatim>\<open>total_time\<close>, \<^verbatim>\<open>confidence\<close>, scores, tolerances) are exact
  rationals here; rounding is not modelled.
\<close>

record status_rec =
  status :: string
  status_title :: "string option"
  start :: int
  endt :: int
  total_time :: "rat option"
  vacancy_code :: "string option"
  confidence :: "rat option"
  consolidated_count :: "nat option"
  merged_sources :: "int list option"
  gap_filled :: bool
  gap_type :: "string option"
  anomaly_corrected :: bool
  original_status :: "string option"
  merge_type :: "string option"
  original_statuses :: "string list option"
  split_type :: "string option"

text \<open>\<^verbatim>\<open>core.config\<close>: the two settings the pipeline reads.\<close>

record config =
  conflictResolution :: string
  gapTolerance :: rat

text \<open>
  The result of \<^verbatim>\<open>analytics.determineEquipmentGroup(equipmentName)\<close>. The pipeline uses
  the equipment name only through this group, as a cache key and in log lines, so the
  group is what the model takes.
\<close>

datatype equipment_group =
  Alta_Pressao | Baixa_Pressao | Vacuo | Caminhoes | Escavadeiras | Outros

text \<open>
  An entry of the pattern cache read by \<^verbatim>\<open>detectPattern\<close>, and the environment of one
  run: the configuration, the group of the asset and the cached patterns of the asset
  (\<open>None\<close> when \<^verbatim>\<open>getCache\<close> returns null).
\<close>

record hist_pattern =
  hp_status1 :: string
  hp_status2 :: string
  successRate :: rat
  optimalSplit :: rat
  hp_weight1 :: rat
  hp_weight2 :: rat

record env =
  cfg :: config
  equipmentGroup :: equipment_group
  patternCache :: "hist_pattern list option"

section \<open>IntervalNormalizer: removeDuplicatesAdvanced\<close>

text \<open>Decimal printing of a number, as a template literal does it.\<close>

definition digitChar :: "nat \<Rightarrow> char" where
  "digitChar d = ''0123456789'' ! d"

fun showNat :: "nat \<Rightarrow> string" where
  "showNat n = (if n < 10 then [digitChar n]
                else showNat (n div 10) @ [digitChar (n mod 10)])"

declare showNat.simps [simp del]

definition showInt :: "int \<Rightarrow> string" where
  "showInt i = (if i < 0 then CHR ''-'' # showNat (nat (- i)) else showNat (nat i))"

text \<open>\<^verbatim>\<open>Math.round(t / 60000) * 60000\<close>: halves round up.\<close>

definition roundToMinute :: "int \<Rightarrow> int" where
  "roundToMinute t = ((t + 30000) div 60000) * 60000"

definition showOpt :: "string option \<Rightarrow> string" where
  "showOpt v = (case v of None \<Rightarrow> ''undefined'' | Some x \<Rightarrow> x)"

definition dedupKey :: "status_rec \<Rightarrow> string" where
  "dedupKey s = showInt (roundToMinute (start s)) @ ''-'' @ showInt (roundToMinute (endt s))
                @ ''-'' @ status s @ ''-'' @ showOpt (vacancy_code s)"

text \<open>\<^verbatim>\<open>a > b\<close> on two \<^verbatim>\<open>total_time\<close> values: false when either is undefined.\<close>

definition totalTimeGreater :: "rat option \<Rightarrow> rat option \<Rightarrow> bool" where
  "totalTimeGreater a b = (case (a, b) of (Some x, Some y) \<Rightarrow> x > y | _ \<Rightarrow> False)"

text \<open>
  The callback of \<^verbatim>\<open>statusList.filter\<close> with its \<^verbatim>\<open>seen\<close> map threaded through: a
  record is kept (\<^verbatim>\<open>return true\<close>) when its key is new, or when its key is known and
  its \<^verbatim>\<open>total_time\<close> is larger than that of the stored record.
\<close>

fun removeDuplicates_filter :: "(string \<rightharpoonup> status_rec) \<Rightarrow> status_rec list \<Rightarrow> status_rec list" where
  "removeDuplicates_filter seen [] = []"
| "removeDuplicates_filter seen (s # rest) =
     (case seen (dedupKey s) of
        Some existing \<Rightarrow>
          (if totalTimeGreater (total_time s) (total_time existing)
           then s # removeDuplicates_filter (seen(dedupKey s \<mapsto> s)) rest
           else removeDuplicates_filter seen rest)
      | None \<Rightarrow> s # removeDuplicates_filter (seen(dedupKey s \<mapsto> s)) rest)"

definition removeDuplicatesAdvanced :: "status_rec list \<Rightarrow> status_rec list" where
  "removeDuplicatesAdvanced statusList = removeDuplicates_filter Map.empty statusList"

section \<open>ConflictResolver: resolveOverlapsAdvanced\<close>

text \<open>\<^verbatim>\<open>core.statusPriority[s] || 0\<close>.\<close>

definition statusPriority :: "string \<Rightarrow> rat" where
  "statusPriority s =
     (if s = ''maintenance'' then 10
      else if s = ''out_of_plant'' then 9
      else if s = ''secondary_motor_on'' then 8
      else if s = ''on'' then 7
      else if s = ''running'' then 7
      else if s = ''stopped'' then 6
      else if s = ''off'' then 5
      else if s = ''not_appropriated'' then 4
      else if s = ''no_data'' then 3
      else 0)"

text \<open>\<^verbatim>\<open>x || 0.5\<close> on a number that may be undefined: zero is falsy too.\<close>

definition orHalf :: "rat option \<Rightarrow> rat" where
  "orHalf c = (case c of None \<Rightarrow> 1/2 | Some v \<Rightarrow> if v = 0 then 1/2 else v)"

definition getContextScore :: "string \<Rightarrow> equipment_group \<Rightarrow> rat" where
  "getContextScore s g =
     (case g of
        Alta_Pressao \<Rightarrow> (if s = ''stopped'' then 8/10 else if s = ''running'' then 9/10 else 1/2)
      | Vacuo \<Rightarrow> (if s = ''secondary_motor_on'' then 9/10
                  else if s = ''maintenance'' then 7/10 else 1/2)
      | Caminhoes \<Rightarrow> (if s = ''running'' then 9/10 else if s = ''stopped'' then 3/10 else 1/2)
      | _ \<Rightarrow> 1/2)"

definition compositeScore :: "env \<Rightarrow> status_rec \<Rightarrow> rat" where
  "compositeScore e s = statusPriority (status s) * (6/10) + orHalf (confidence s) * (3/10)
                        + getContextScore (status s) (equipmentGroup e) * (1/10)"

text \<open>
  \<^verbatim>\<open>detectPattern\<close>: the cached pattern of the two status codes, or the default record
  \<^verbatim>\<open>{confidence: 0.5, optimalSplitPoint: 0.5, weight1: 0.5, weight2: 0.5}\<close>. The result is
  (confidence, optimalSplitPoint, weight1, weight2).
\<close>

definition detectPattern :: "env \<Rightarrow> status_rec \<Rightarrow> status_rec \<Rightarrow> rat \<times> rat \<times> rat \<times> rat" where
  "detectPattern e s1 s2 =
     (case patternCache e of
        None \<Rightarrow> (1/2, 1/2, 1/2, 1/2)
      | Some ps \<Rightarrow>
          (case find (\<lambda>p. hp_status1 p = status s1 \<and> hp_status2 p = status s2) ps of
             Some p \<Rightarrow> (successRate p, optimalSplit p, hp_weight1 p, hp_weight2 p)
           | None \<Rightarrow> (1/2, 1/2, 1/2, 1/2)))"

text \<open>
  What \<^verbatim>\<open>resolveConflictAdvanced\<close> returns, by its \<^verbatim>\<open>action\<close> field. Under any strategy
  other than \<^verbatim>\<open>priority\<close> and \<^verbatim>\<open>intelligent\<close> it returns the record computed by
  \<^verbatim>\<open>resolveConflictTraditional\<close>, which has no \<^verbatim>\<open>action\<close>: the caller's \<^verbatim>\<open>switch\<close> then
  takes its \<^verbatim>\<open>default\<close> branch (\<open>No_action\<close>).
\<close>

datatype winner = Current | New

datatype resolution =
  Priority_enhanced winner
  | Merge_weighted rat rat
  | Split_intelligent rat
  | No_action

definition resolveConflictAdvanced :: "env \<Rightarrow> status_rec \<Rightarrow> status_rec \<Rightarrow> resolution" where
  "resolveConflictAdvanced e s1 s2 =
     (let score1 = compositeScore e s1; score2 = compositeScore e s2 in
      if conflictResolution (cfg e) = ''priority'' then
        (if \<bar>score1 - score2\<bar> > 2/10
         then Priority_enhanced (if score1 > score2 then Current else New)
         else Merge_weighted score1 score2)
      else if conflictResolution (cfg e) = ''intelligent'' then
        (case detectPattern e s1 s2 of
           (c, sp, w1, w2) \<Rightarrow> if c > 7/10 then Split_intelligent sp else Merge_weighted w1 w2)
      else No_action)"

definition resolveConflictTraditional :: "env \<Rightarrow> status_rec \<Rightarrow> status_rec \<Rightarrow> status_rec" where
  "resolveConflictTraditional e s1 s2 =
     (if conflictResolution (cfg e) = ''priority'' then
        (if statusPriority (status s1) > statusPriority (status s2)
         then s1\<lparr>endt := endt s2\<rparr> else s2)
      else if conflictResolution (cfg e) = ''latest'' then s2
      else if conflictResolution (cfg e) = ''longest'' then
        (if endt s1 - start s1 > endt s2 - start s2 then s1\<lparr>endt := endt s2\<rparr> else s2)
      else s2)"

text \<open>\<^verbatim>\<open>parseFloat(x) || 0\<close> on a \<^verbatim>\<open>total_time\<close>.\<close>

definition orZero :: "rat option \<Rightarrow> rat" where
  "orZero t = (case t of None \<Rightarrow> 0 | Some v \<Rightarrow> v)"

text \<open>
  \<^verbatim>\<open>mergeStatusWithWeight\<close>. When the two weights sum to zero the source divides by
  zero: the normalized weights are the two infinities, the first record is chosen when
  its weight is positive, and the confidence stored is infinite. \<open>firstChosen\<close>
  follows the source in that case too; the confidence of that case alone is not a
  number of the model, and is \<open>0\<close> here.
\<close>

definition mergeStatusWithWeight :: "status_rec \<Rightarrow> status_rec \<Rightarrow> rat \<Rightarrow> rat \<Rightarrow> status_rec" where
  "mergeStatusWithWeight s1 s2 w1 w2 =
     (let weight1 = orHalf (Some w1); weight2 = orHalf (Some w2);
          totalWeight = weight1 + weight2;
          normalizedWeight1 = weight1 / totalWeight;
          normalizedWeight2 = weight2 / totalWeight;
          firstChosen = (if totalWeight = 0 then weight1 > 0
                         else normalizedWeight1 > normalizedWeight2);
          chosenStatus = (if firstChosen then s1 else s2)
      in chosenStatus\<lparr>
           start := start s1,
           endt := endt s2,
           total_time := Some (orZero (total_time s1) + orZero (total_time s2)),
           confidence := Some (if firstChosen then normalizedWeight1 else normalizedWeight2),
           merge_type := Some ''weighted'',
           original_statuses := Some [status s1, status s2]\<rparr>)"

text \<open>\<^verbatim>\<open>new Date(x)\<close> on a number drops its fraction, towards zero.\<close>

definition truncRat :: "rat \<Rightarrow> int" where
  "truncRat r = (if r \<ge> 0 then \<lfloor>r\<rfloor> else \<lceil>r\<rceil>)"

definition splitStatusIntelligent :: "status_rec \<Rightarrow> status_rec \<Rightarrow> rat \<Rightarrow> status_rec \<times> status_rec" where
  "splitStatusIntelligent s1 s2 splitPoint =
     (let duration = endt s2 - start s1;
          splitTime = truncRat (of_int (start s1) + of_int duration * splitPoint)
      in (s1\<lparr>endt := splitTime, split_type := Some ''intelligent''\<rparr>,
          s2\<lparr>start := splitTime, split_type := Some ''intelligent''\<rparr>))"

text \<open>
  The loop of \<^verbatim>\<open>resolveOverlapsAdvanced\<close> after its first iteration: \<open>current\<close> is the
  running interval, the result is what is pushed to \<^verbatim>\<open>resolved\<close>, in order. In the
  \<^verbatim>\<open>priority_enhanced\<close> branch won by the new record the source also writes the raised
  confidence into the input object; the input list is not read again in this run.
\<close>

fun resolveOverlaps_loop :: "env \<Rightarrow> status_rec \<Rightarrow> status_rec list \<Rightarrow> status_rec list" where
  "resolveOverlaps_loop e current [] = [current]"
| "resolveOverlaps_loop e current (s # rest) =
     (if start s < endt current \<and> endt current - start s > 30000 then
        (case resolveConflictAdvanced e current s of
           Merge_weighted w1 w2 \<Rightarrow>
             resolveOverlaps_loop e (mergeStatusWithWeight current s w1 w2) rest
         | Split_intelligent sp \<Rightarrow>
             fst (splitStatusIntelligent current s sp)
               # resolveOverlaps_loop e (snd (splitStatusIntelligent current s sp)) rest
         | Priority_enhanced Current \<Rightarrow>
             resolveOverlaps_loop e
               (current\<lparr>confidence := Some (orHalf (confidence current) + 1/10),
                         endt := (if endt s > endt current then endt s else endt current)\<rparr>) rest
         | Priority_enhanced New \<Rightarrow>
             resolveOverlaps_loop e (s\<lparr>confidence := Some (orHalf (confidence s) + 1/10)\<rparr>) rest
         | No_action \<Rightarrow>
             resolveOverlaps_loop e (resolveConflictTraditional e current s) rest)
      else current # resolveOverlaps_loop e s rest)"

definition resolveOverlapsAdvanced :: "env \<Rightarrow> status_rec list \<Rightarrow> status_rec list" where
  "resolveOverlapsAdvanced e statusList =
     (case statusList of
        s # s' # rest \<Rightarrow> resolveOverlaps_loop e s (s' # rest)
      | _ \<Rightarrow> statusList)"

section \<open>Consolidator and GapFiller\<close>

text \<open>
  \<^verbatim>\<open>toleranceRules[s] || baseTimeout\<close>: a product that is zero is falsy, and is zero only
  when \<^verbatim>\<open>baseTimeout\<close> is.
\<close>

definition toleranceRule :: "rat \<Rightarrow> string \<Rightarrow> rat" where
  "toleranceRule baseTimeout s =
     (if s = ''maintenance'' then baseTimeout * 3
      else if s = ''running'' then baseTimeout * (1/2)
      else if s = ''stopped'' then baseTimeout * 2
      else if s = ''off'' then baseTimeout * (3/2)
      else baseTimeout)"

definition getAdaptiveTolerance :: "env \<Rightarrow> string \<Rightarrow> string \<Rightarrow> rat" where
  "getAdaptiveTolerance e status1 status2 =
     (let baseTimeout = gapTolerance (cfg e);
          tolerance1 = toleranceRule baseTimeout status1;
          tolerance2 = toleranceRule baseTimeout status2
      in max tolerance1 tolerance2)"

definition compatibleGroups :: "string list list" where
  "compatibleGroups =
     [[''running'', ''on'', ''working''],
      [''stopped'', ''idle''],
      [''off'', ''not_appropriated''],
      [''maintenance'', ''error'']]"

definition areStatusesCompatible :: "string \<Rightarrow> string \<Rightarrow> bool" where
  "areStatusesCompatible status1 status2 =
     list_ex (\<lambda>g. status1 \<in> set g \<and> status2 \<in> set g) compatibleGroups"

definition mergeStatusAdvanced :: "status_rec \<Rightarrow> status_rec \<Rightarrow> status_rec" where
  "mergeStatusAdvanced s1 s2 =
     s1\<lparr>endt := endt s2,
        total_time := Some (orZero (total_time s1) + orZero (total_time s2)),
        consolidated_count :=
          Some ((case consolidated_count s1 of
                   None \<Rightarrow> 1 | Some n \<Rightarrow> if n = 0 then 1 else n) + 1),
        confidence := Some (min (orHalf (confidence s1) + 1/10) 1),
        merged_sources :=
          Some ((case merged_sources s1 of None \<Rightarrow> [start s1] | Some l \<Rightarrow> l) @ [start s2])\<rparr>"

text \<open>\<^verbatim>\<open>gapSeconds\<close> between the running interval and the next record.\<close>

definition gapSeconds :: "status_rec \<Rightarrow> status_rec \<Rightarrow> rat" where
  "gapSeconds current s = of_int (start s - endt current) / 1000"

text \<open>The condition under which \<^verbatim>\<open>consolidateConsecutiveAdvanced\<close> merges.\<close>

definition shouldConsolidate :: "env \<Rightarrow> status_rec \<Rightarrow> status_rec \<Rightarrow> bool" where
  "shouldConsolidate e current s =
     (let adaptiveTolerance = getAdaptiveTolerance e (status current) (status s);
          sameStatus = (status current = status s);
          sameStatusTitle = (status_title current = status_title s);
          withinTolerance = (\<bar>gapSeconds current s\<bar> \<le> adaptiveTolerance);
          compatibleStatuses = areStatusesCompatible (status current) (status s)
      in (sameStatus \<and> sameStatusTitle \<and> withinTolerance)
         \<or> (compatibleStatuses \<and> \<bar>gapSeconds current s\<bar> \<le> 30))"

fun consolidate_loop :: "env \<Rightarrow> status_rec \<Rightarrow> status_rec list \<Rightarrow> status_rec list" where
  "consolidate_loop e current [] = [current]"
| "consolidate_loop e current (s # rest) =
     (if shouldConsolidate e current s
      then consolidate_loop e (mergeStatusAdvanced current s) rest
      else current # consolidate_loop e s rest)"

definition consolidateConsecutiveAdvanced :: "env \<Rightarrow> status_rec list \<Rightarrow> status_rec list" where
  "consolidateConsecutiveAdvanced e statusList =
     (case statusList of
        s # s' # rest \<Rightarrow> consolidate_loop e s (s' # rest)
      | _ \<Rightarrow> statusList)"

text \<open>\<^verbatim>\<open>chooseFillStatus\<close>: (status, title, confidence, type).\<close>

definition chooseFillStatus ::
  "env \<Rightarrow> status_rec \<Rightarrow> status_rec \<Rightarrow> string \<times> string \<times> rat \<times> string" where
  "chooseFillStatus e prevStatus nextStatus =
     (let ruleKey = status prevStatus @ ''-'' @ status nextStatus in
      case equipmentGroup e of
        Alta_Pressao \<Rightarrow>
          (if ruleKey = ''running-stopped''
             then (''transitioning'', ''Transicionando'', 8/10, ''contextual'')
           else if ruleKey = ''stopped-running''
             then (''preparing'', ''Preparando'', 8/10, ''contextual'')
           else (''off'', ''Motor Desligado'', 1/2, ''default''))
      | Caminhoes \<Rightarrow>
          (if ruleKey = ''running-stopped''
             then (''off'', ''Motor Desligado'', 9/10, ''contextual'')
           else if ruleKey = ''stopped-running''
             then (''preparing'', ''Preparando'', 7/10, ''contextual'')
           else (''off'', ''Motor Desligado'', 1/2, ''default''))
      | _ \<Rightarrow> (''off'', ''Motor Desligado'', 1/2, ''default''))"

definition gapFiller :: "env \<Rightarrow> status_rec \<Rightarrow> status_rec \<Rightarrow> status_rec" where
  "gapFiller e a b =
     (case chooseFillStatus e a b of
        (fillStatus, fillTitle, fillConfidence, fillType) \<Rightarrow>
          a\<lparr>status := fillStatus,
            status_title := Some fillTitle,
            start := endt a,
            endt := start b,
            total_time := Some (gapSeconds a b / 3600),
            gap_filled := True,
            gap_type := Some fillType,
            confidence := Some fillConfidence\<rparr>)"

definition isSmallGap :: "env \<Rightarrow> status_rec \<Rightarrow> status_rec \<Rightarrow> bool" where
  "isSmallGap e a b = (gapSeconds a b > 0 \<and> gapSeconds a b \<le> gapTolerance (cfg e) * 2)"

text \<open>
  The index loop of \<^verbatim>\<open>fillSmallGapsIntelligent\<close>: each record is pushed, followed by a
  filler when the gap to its successor is small. A list of at most one record is
  returned as it is.
\<close>

fun fillSmallGapsIntelligent :: "env \<Rightarrow> status_rec list \<Rightarrow> status_rec list" where
  "fillSmallGapsIntelligent e [] = []"
| "fillSmallGapsIntelligent e [a] = [a]"
| "fillSmallGapsIntelligent e (a # b # rest) =
     (if isSmallGap e a b
      then a # gapFiller e a b # fillSmallGapsIntelligent e (b # rest)
      else a # fillSmallGapsIntelligent e (b # rest))"

section \<open>AnomalyCorrector: applyMLOptimizations\<close>

text \<open>The table \<^verbatim>\<open>anomalousPatterns\<close>: prev, current, next, maxDuration.\<close>

definition anomalousPatterns :: "(string \<times> string \<times> string \<times> int) list" where
  "anomalousPatterns =
     [(''running'', ''stopped'', ''running'', 30000),
      (''off'', ''running'', ''off'', 60000),
      (''maintenance'', ''running'', ''maintenance'', 300000)]"

definition isAnomalousSequence :: "status_rec \<Rightarrow> status_rec \<Rightarrow> status_rec \<Rightarrow> bool" where
  "isAnomalousSequence prev current next =
     (let duration = endt current - start current in
      list_ex (\<lambda>(pp, pc, pn, maxDuration).
                 pp = status prev \<and> pc = status current \<and> pn = status next
                 \<and> duration < maxDuration) anomalousPatterns)"

text \<open>
  The \<^verbatim>\<open>forEach\<close> of \<^verbatim>\<open>findMostLikelyStatus\<close>: the counts per status code, the largest
  count so far and the record that reached it first.
\<close>

fun mostLikely_loop ::
  "(string \<Rightarrow> nat) \<Rightarrow> nat \<Rightarrow> status_rec \<Rightarrow> status_rec list \<Rightarrow> status_rec" where
  "mostLikely_loop statusCount maxCount mostLikely [] = mostLikely"
| "mostLikely_loop statusCount maxCount mostLikely (s # rest) =
     (let count = statusCount (status s) + 1 in
      if count > maxCount
      then mostLikely_loop (statusCount(status s := count)) count s rest
      else mostLikely_loop (statusCount(status s := count)) maxCount mostLikely rest)"

text \<open>
  \<^verbatim>\<open>findMostLikelyStatus\<close>: (status, title), the title being
  \<^verbatim>\<open>status_title || status\<close>. Its only caller passes \<^verbatim>\<open>[prev, next]\<close>; on an empty list
  the source raises, and the function is left unspecified there.
\<close>

fun findMostLikelyStatus :: "status_rec list \<Rightarrow> string \<times> string" where
  "findMostLikelyStatus (first # rest) =
     (let mostLikely = mostLikely_loop (\<lambda>_. 0) 0 first (first # rest) in
      (status mostLikely,
       (case status_title mostLikely of
          None \<Rightarrow> status mostLikely
        | Some t \<Rightarrow> if t = [] then status mostLikely else t)))"

definition correctAnomalousSequence :: "status_rec \<Rightarrow> status_rec \<Rightarrow> status_rec \<Rightarrow> status_rec" where
  "correctAnomalousSequence prev current next =
     (case findMostLikelyStatus [prev, next] of
        (avgStatus, avgTitle) \<Rightarrow>
          current\<lparr>status := avgStatus,
                  status_title := Some avgTitle,
                  anomaly_corrected := True,
                  original_status := Some (status current),
                  confidence := Some (6/10)\<rparr>)"

text \<open>
  The loop of \<^verbatim>\<open>applyMLOptimizations\<close>: \<open>prev\<close> is \<^verbatim>\<open>statusList[i - 1]\<close> (null at the
  first index), the successor is null at the last index. Neighbours are read from the
  input list, never from the corrected output.
\<close>

fun optimize_loop :: "status_rec option \<Rightarrow> status_rec list \<Rightarrow> status_rec list" where
  "optimize_loop prev [] = []"
| "optimize_loop prev [current] = [current]"
| "optimize_loop prev (current # next # rest) =
     (case prev of
        None \<Rightarrow> current
      | Some p \<Rightarrow> if isAnomalousSequence p current next
                  then correctAnomalousSequence p current next else current)
     # optimize_loop (Some current) (next # rest)"

definition applyMLOptimizations :: "status_rec list \<Rightarrow> status_rec list" where
  "applyMLOptimizations statusList =
     (if length statusList < 3 then statusList else optimize_loop None statusList)"

section \<open>The pipeline\<close>

text \<open>
  Steps 3 to 6 of \<^verbatim>\<open>resolveStatusConflictsAdvanced\<close>: ConflictResolver, Consolidator,
  GapFiller, AnomalyCorrector.
\<close>

definition resolverChain :: "env \<Rightarrow> status_rec list \<Rightarrow> status_rec list" where
  "resolverChain e sortedStatus =
     applyMLOptimizations
       (fillSmallGapsIntelligent e
          (consolidateConsecutiveAdvanced e
             (resolveOverlapsAdvanced e sortedStatus)))"

text \<open>
  \<^verbatim>\<open>resolveStatusConflictsAdvanced\<close>: duplicates removed, a stable sort by start time,
  then the chain.
\<close>

definition resolveStatusConflictsAdvanced :: "env \<Rightarrow> status_rec list \<Rightarrow> status_rec list" where
  "resolveStatusConflictsAdvanced e statusList =
     (if statusList = [] then []
      else resolverChain e (sort_key start (removeDuplicatesAdvanced statusList)))"

section \<open>Rule engine: values\<close>

text \<open>
  The rules document is parsed JSON and the arguments of the classifier are whatever the
  caller passes, so both are JavaScript values: \<^verbatim>\<open>undefined\<close>, \<^verbatim>\<open>null\<close>, booleans,
  numbers (integers here), strings, arrays and plain objects. An object is its list of
  own properties in insertion order, with distinct keys; the values of its properties
  are values of this type, as \<^verbatim>\<open>JSON.parse\<close> builds them. \<open>JFunction n\<close> is the built-in
  function named \<open>n\<close> that a property read finds on a prototype; no document holds one.
\<close>

datatype jsval =
  JUndefined | JNull | JBool bool | JNum int | JStr string
  | JArr "jsval list" | JObj "(string \<times> jsval) list" | JFunction string

datatype error = TypeError | StorageError

definition andThen :: "error + 'a \<Rightarrow> ('a \<Rightarrow> error + 'b) \<Rightarrow> error + 'b" where
  "andThen m f = (case m of Inl e \<Rightarrow> Inl e | Inr v \<Rightarrow> f v)"

fun truthy :: "jsval \<Rightarrow> bool" where
  "truthy JUndefined = False"
| "truthy JNull = False"
| "truthy (JBool b) = b"
| "truthy (JNum n) = (n \<noteq> 0)"
| "truthy (JStr s) = (s \<noteq> [])"
| "truthy (JArr xs) = True"
| "truthy (JObj kvs) = True"
| "truthy (JFunction n) = True"

text \<open>\<^verbatim>\<open>typeof v === 'object'\<close>.\<close>

fun isObjectType :: "jsval \<Rightarrow> bool" where
  "isObjectType JNull = True"
| "isObjectType (JArr xs) = True"
| "isObjectType (JObj kvs) = True"
| "isObjectType v = False"

fun joinComma :: "string list \<Rightarrow> string" where
  "joinComma [] = []"
| "joinComma [s] = s"
| "joinComma (s # t # rest) = s @ '','' @ joinComma (t # rest)"

text \<open>
  The string of a value, as a property key \<^verbatim>\<open>table[v]\<close> and a template literal
  \<^verbatim>\<open>`${v}`\<close> take it. An object is converted by its \<^verbatim>\<open>toString\<close> method: the inherited
  one gives \<^verbatim>\<open>[object Object]\<close>, and an own property \<^verbatim>\<open>toString\<close>, which in a parsed
  document is no function, leaves the conversion with \<^verbatim>\<open>valueOf\<close>, which gives no
  primitive either, so that it raises a TypeError. An array joins the strings of its
  elements, and raises when one of them does. A number is written in decimal digits, as
  an integer below \<open>10\<^sup>2\<^sup>1\<close> is. The text of a built-in function is the one V8 prints.
\<close>

fun jsToString :: "jsval \<Rightarrow> error + string"
  and elementStrings :: "jsval list \<Rightarrow> error + string list" where
  "jsToString JUndefined = Inr ''undefined''"
| "jsToString JNull = Inr ''null''"
| "jsToString (JBool b) = Inr (if b then ''true'' else ''false'')"
| "jsToString (JNum n) = Inr (showInt n)"
| "jsToString (JStr s) = Inr s"
| "jsToString (JArr xs) =
     (case elementStrings xs of Inl e \<Rightarrow> Inl e | Inr ss \<Rightarrow> Inr (joinComma ss))"
| "jsToString (JObj kvs) =
     (if map_of kvs ''toString'' = None then Inr ''[object Object]'' else Inl TypeError)"
| "jsToString (JFunction n) = Inr (''function '' @ n @ ''() { [native code] }'')"
| "elementStrings [] = Inr []"
| "elementStrings (x # xs) =
     (case (if x = JUndefined \<or> x = JNull then Inr [] else jsToString x) of
        Inl e \<Rightarrow> Inl e
      | Inr s \<Rightarrow> (case elementStrings xs of Inl e \<Rightarrow> Inl e | Inr ss \<Rightarrow> Inr (s # ss)))"

text \<open>
  A log line \<^verbatim>\<open>addDebugLog(`... ${v1} ... ${v2} ...`)\<close>: the template literal converts
  the values in order, and the line raises when a conversion does. What is logged has no
  part in any result, and appending it to the log is taken not to raise.
\<close>

fun logLine :: "jsval list \<Rightarrow> error + unit" where
  "logLine [] = Inr ()"
| "logLine (v # vs) = andThen (jsToString v) (\<lambda>s. logLine vs)"

text \<open>\<^verbatim>\<open>obj[key] = v\<close> on an object: the property keeps its place, a new one goes last.\<close>

fun objSet :: "(string \<times> jsval) list \<Rightarrow> string \<Rightarrow> jsval \<Rightarrow> (string \<times> jsval) list" where
  "objSet [] k v = [(k, v)]"
| "objSet ((k', v') # rest) k v = (if k' = k then (k, v) # rest else (k', v') # objSet rest k v)"

text \<open>
  \<^verbatim>\<open>Object.entries(v)\<close> and the properties a spread \<^verbatim>\<open>{...v}\<close> copies: those of an
  object, the elements of an array and the characters of a string under their indices,
  and none of any other value.
\<close>

fun ownEntries :: "jsval \<Rightarrow> (string \<times> jsval) list" where
  "ownEntries (JObj kvs) = kvs"
| "ownEntries (JArr xs) = zip (map (\<lambda>i. showNat i) [0..<length xs]) xs"
| "ownEntries (JStr s) = zip (map (\<lambda>i. showNat i) [0..<length s]) (map (\<lambda>c. JStr [c]) s)"
| "ownEntries v = []"

text \<open>
  What a property read finds beyond the own properties: every value but \<^verbatim>\<open>undefined\<close>
  and \<^verbatim>\<open>null\<close> has \<^verbatim>\<open>Object.prototype\<close> at the end of its prototype chain, whose
  members are the functions below, \<^verbatim>\<open>constructor\<close> (the constructor of the kind of
  value), and the accessor \<^verbatim>\<open>__proto__\<close>, which gives the prototype of the value. A
  prototype is truthy, has no own enumerable property, and is an array for an array and
  a function for a function; it is given here as the empty array, the function without
  a name, and for any other value the empty object (so the prototypes of strings,
  numbers and booleans are not told apart from that of objects). The further methods of
  \<^verbatim>\<open>Array.prototype\<close>, \<^verbatim>\<open>String.prototype\<close>, \<^verbatim>\<open>Number.prototype\<close>,
  \<^verbatim>\<open>Boolean.prototype\<close> and \<^verbatim>\<open>Function.prototype\<close> (\<^verbatim>\<open>map\<close>, \<^verbatim>\<open>trim\<close>, \<^verbatim>\<open>toFixed\<close>,
  \<^verbatim>\<open>call\<close>, ...) and the own properties of a function are not modelled.
\<close>

definition objectPrototypeFunctions :: "string list" where
  "objectPrototypeFunctions =
     [''hasOwnProperty'', ''isPrototypeOf'', ''propertyIsEnumerable'', ''toLocaleString'',
      ''toString'', ''valueOf'', ''__defineGetter__'', ''__defineSetter__'',
      ''__lookupGetter__'', ''__lookupSetter__'']"

fun constructorName :: "jsval \<Rightarrow> string" where
  "constructorName (JBool b) = ''Boolean''"
| "constructorName (JNum n) = ''Number''"
| "constructorName (JStr s) = ''String''"
| "constructorName (JArr xs) = ''Array''"
| "constructorName (JFunction n) = ''Function''"
| "constructorName v = ''Object''"

definition inheritedProp :: "jsval \<Rightarrow> string \<Rightarrow> jsval" where
  "inheritedProp base k =
     (if k = ''constructor'' then JFunction (constructorName base)
      else if k \<in> set objectPrototypeFunctions then JFunction k
      else if k = ''__proto__''
      then (case base of JArr xs \<Rightarrow> JArr [] | JFunction n \<Rightarrow> JFunction [] | _ \<Rightarrow> JObj [])
      else JUndefined)"

text \<open>
  \<^verbatim>\<open>base[key]\<close> and \<^verbatim>\<open>base.key\<close>: a TypeError on \<^verbatim>\<open>undefined\<close> and \<^verbatim>\<open>null\<close>; otherwise the
  own property (of an object a property, of an array an element or \<^verbatim>\<open>length\<close>, of a
  string a character or \<^verbatim>\<open>length\<close>), else the inherited one, else \<^verbatim>\<open>undefined\<close>.
\<close>

fun getProp :: "jsval \<Rightarrow> string \<Rightarrow> error + jsval" where
  "getProp JUndefined k = Inl TypeError"
| "getProp JNull k = Inl TypeError"
| "getProp (JObj kvs) k =
     Inr (case map_of kvs k of None \<Rightarrow> inheritedProp (JObj kvs) k | Some v \<Rightarrow> v)"
| "getProp (JArr xs) k =
     Inr (case map_of (ownEntries (JArr xs)) k of
            Some v \<Rightarrow> v
          | None \<Rightarrow> if k = ''length'' then JNum (int (length xs))
                    else inheritedProp (JArr xs) k)"
| "getProp (JStr s) k =
     Inr (case map_of (ownEntries (JStr s)) k of
            Some v \<Rightarrow> v
          | None \<Rightarrow> if k = ''length'' then JNum (int (length s))
                    else inheritedProp (JStr s) k)"
| "getProp v k = Inr (inheritedProp v k)"

text \<open>
  \<open>setProp\<close> is an assignment \<^verbatim>\<open>base.key = v\<close>, which class code (strict mode)
  rejects on a primitive and on \<^verbatim>\<open>undefined\<close> and \<^verbatim>\<open>null\<close>. A named property
  assigned to an array or to a function is not among the elements and is dropped here,
  as \<^verbatim>\<open>JSON.stringify\<close> drops it. Assigning \<^verbatim>\<open>__proto__\<close> to an object that has no own
  property of that name runs the inherited setter, which creates no property (the
  change of prototype it makes for an object value is not modelled).
\<close>

fun setProp :: "jsval \<Rightarrow> string \<Rightarrow> jsval \<Rightarrow> error + jsval" where
  "setProp (JObj kvs) k v =
     (if k = ''__proto__'' \<and> map_of kvs k = None then Inr (JObj kvs)
      else Inr (JObj (objSet kvs k v)))"
| "setProp (JArr xs) k v = Inr (JArr xs)"
| "setProp (JFunction n) k v = Inr (JFunction n)"
| "setProp base k v = Inl TypeError"

text \<open>
  Comparison of strings by code units; \<^verbatim>\<open>a <= b\<close> and \<^verbatim>\<open>a < b\<close> on values, of which
  one side is a string in this code (a time of day \<^verbatim>\<open>HH:MM\<close>, or the version
  \<^verbatim>\<open>2.0.0\<close>) that is not the text of a number. The other side is compared as a string
  when it is one, and by its string when it is an array, an object or a function,
  whose conversion may raise; any other value is compared as a number, with the result
  false.
\<close>

fun strLess :: "string \<Rightarrow> string \<Rightarrow> bool" where
  "strLess [] [] = False"
| "strLess [] (y # ys) = True"
| "strLess (x # xs) [] = False"
| "strLess (x # xs) (y # ys) =
     (if (of_char x :: nat) < of_char y then True
      else if (of_char y :: nat) < of_char x then False
      else strLess xs ys)"

definition strLe :: "string \<Rightarrow> string \<Rightarrow> bool" where
  "strLe a b = (a = b \<or> strLess a b)"

fun comparableString :: "jsval \<Rightarrow> error + string option" where
  "comparableString (JStr s) = Inr (Some s)"
| "comparableString (JArr xs) = andThen (jsToString (JArr xs)) (\<lambda>s. Inr (Some s))"
| "comparableString (JObj kvs) = andThen (jsToString (JObj kvs)) (\<lambda>s. Inr (Some s))"
| "comparableString (JFunction n) = andThen (jsToString (JFunction n)) (\<lambda>s. Inr (Some s))"
| "comparableString v = Inr None"

definition valLe :: "jsval \<Rightarrow> jsval \<Rightarrow> error + bool" where
  "valLe a b =
     andThen (comparableString a) (\<lambda>ca.
     andThen (comparableString b) (\<lambda>cb.
     Inr (case (ca, cb) of (Some x, Some y) \<Rightarrow> strLe x y | _ \<Rightarrow> False)))"

definition valLess :: "jsval \<Rightarrow> jsval \<Rightarrow> error + bool" where
  "valLess a b =
     andThen (comparableString a) (\<lambda>ca.
     andThen (comparableString b) (\<lambda>cb.
     Inr (case (ca, cb) of (Some x, Some y) \<Rightarrow> strLess x y | _ \<Rightarrow> False)))"

text \<open>\<^verbatim>\<open>hay.includes(needle)\<close> on strings.\<close>

fun startsWith :: "string \<Rightarrow> string \<Rightarrow> bool" where
  "startsWith hay [] = True"
| "startsWith [] (n # ns) = False"
| "startsWith (h # hs) (n # ns) = (h = n \<and> startsWith hs ns)"

fun strIncludes :: "string \<Rightarrow> string \<Rightarrow> bool" where
  "strIncludes [] needle = (needle = [])"
| "strIncludes (h # hs) needle = (startsWith (h # hs) needle \<or> strIncludes hs needle)"

section \<open>Rule engine: ProductivityRules\<close>

text \<open>
  The fields of a \<^verbatim>\<open>ProductivityRules\<close> instance that the modelled methods use.
  \<^verbatim>\<open>rulesConfig\<close> is \<^verbatim>\<open>null\<close> until a document is loaded. The two definition tables are
  given by their entries in order: key, display name, default classification.
\<close>

record rules_module =
  version :: string
  rulesConfig :: jsval
  defaultRules :: jsval
  isDirty :: bool
  statusDefinitions :: "(string \<times> string \<times> string) list"
  appointmentDefinitions :: "(string \<times> string \<times> string) list"

text \<open>
  What the platform computes: \<^verbatim>\<open>new Date(t).toTimeString().slice(0, 5)\<close>, the local
  time of day \<^verbatim>\<open>HH:MM\<close> of a timestamp, and \<^verbatim>\<open>toLowerCase\<close> on a string.
\<close>

record platform =
  timeString :: "jsval \<Rightarrow> string"
  toLowerCase :: "string \<Rightarrow> string"

text \<open>
  \<^verbatim>\<open>table[activity]\<close> with a key that is any value: the key is converted to a string.
\<close>

definition getIndex :: "jsval \<Rightarrow> jsval \<Rightarrow> error + jsval" where
  "getIndex table key = andThen (jsToString key) (\<lambda>k. getProp table k)"

text \<open>The value of \<^verbatim>\<open>m[activity] || null\<close> and of \<^verbatim>\<open>if (m[activity]) return m[activity]\<close>.\<close>

definition lookupModifier :: "jsval \<Rightarrow> jsval \<Rightarrow> error + jsval" where
  "lookupModifier modifiers activity =
     andThen (getIndex modifiers activity)
       (\<lambda>v. Inr (if truthy v then v else JNull))"

text \<open>\<^verbatim>\<open>timeStr >= businessHours.start && timeStr <= businessHours.end\<close>.\<close>

definition inBusinessHours :: "jsval \<Rightarrow> jsval \<Rightarrow> error + bool" where
  "inBusinessHours businessHours timeStr =
     andThen (getProp businessHours ''start'') (\<lambda>bStart.
     andThen (valLe bStart timeStr) (\<lambda>afterStart.
     if afterStart
     then andThen (getProp businessHours ''end'') (\<lambda>bEnd. valLe timeStr bEnd)
     else Inr False))"

text \<open>\<^verbatim>\<open>timeStr >= nightShift.start || timeStr <= nightShift.end\<close>.\<close>

definition inNightShift :: "jsval \<Rightarrow> jsval \<Rightarrow> error + bool" where
  "inNightShift nightShift timeStr =
     andThen (getProp nightShift ''start'') (\<lambda>nStart.
     andThen (valLe nStart timeStr) (\<lambda>afterStart.
     if afterStart then Inr True
     else andThen (getProp nightShift ''end'') (\<lambda>nEnd. valLe timeStr nEnd)))"

text \<open>
  \<^verbatim>\<open>applyTimeBasedRules\<close>. \<^verbatim>\<open>new Date(timestamp)\<close> converts an object or an array to a
  primitive first, which raises where its conversion to a string does.
\<close>

definition applyTimeBasedRules :: "platform \<Rightarrow> rules_module \<Rightarrow> jsval \<Rightarrow> jsval \<Rightarrow> error + jsval" where
  "applyTimeBasedRules pf m activity timestamp =
     andThen (jsToString timestamp) (\<lambda>converted.
     (let timeStr = JStr (timeString pf timestamp) in
      andThen (getProp (rulesConfig m) ''timeBasedRules'') (\<lambda>tb.
      andThen (getProp tb ''businessHours'') (\<lambda>businessHours.
      andThen (inBusinessHours businessHours timeStr) (\<lambda>inB.
      andThen (if inB
               then andThen (getProp businessHours ''modifiers'') (\<lambda>mods.
                      lookupModifier mods activity)
               else Inr JNull) (\<lambda>businessResult.
      if truthy businessResult then Inr businessResult
      else
        andThen (getProp tb ''nightShift'') (\<lambda>nightShift.
        andThen (inNightShift nightShift timeStr) (\<lambda>inN.
        if inN
        then andThen (getProp nightShift ''modifiers'') (\<lambda>mods. lookupModifier mods activity)
        else Inr JNull))))))))"

definition applyGroupOverrides :: "rules_module \<Rightarrow> jsval \<Rightarrow> jsval \<Rightarrow> error + jsval" where
  "applyGroupOverrides m activity equipmentGroup' =
     andThen (getProp (rulesConfig m) ''groupSpecificRules'') (\<lambda>gsr.
     andThen (getIndex gsr equipmentGroup') (\<lambda>groupConfig.
     if \<not> truthy groupConfig then Inr JNull
     else
       andThen (getProp groupConfig ''enabled'') (\<lambda>en.
       if \<not> truthy en then Inr JNull
       else
         andThen (getProp groupConfig ''overrides'') (\<lambda>ov.
         if \<not> truthy ov then Inr JNull else lookupModifier ov activity))))"

definition applyContextualRules :: "rules_module \<Rightarrow> jsval \<Rightarrow> jsval \<Rightarrow> error + jsval" where
  "applyContextualRules m activity conditions =
     andThen (getProp (rulesConfig m) ''contextualRules'') (\<lambda>contextualRules.
     andThen (getProp contextualRules ''weatherDependent'') (\<lambda>wd.
     andThen (getProp wd ''enabled'') (\<lambda>wdEnabled.
     andThen (if truthy wdEnabled
              then andThen (getProp conditions ''weather'') (\<lambda>weather.
                   if truthy weather \<and> weather = JStr ''rain''
                   then andThen (getProp wd ''rainModifiers'') (\<lambda>mods.
                          lookupModifier mods activity)
                   else Inr JNull)
              else Inr JNull) (\<lambda>rainResult.
     if truthy rainResult then Inr rainResult
     else
       andThen (getProp contextualRules ''maintenanceWindows'') (\<lambda>mw.
       andThen (getProp mw ''enabled'') (\<lambda>mwEnabled.
       andThen (if truthy mwEnabled
                then andThen (getProp conditions ''isMaintenanceWindow'') (\<lambda>w. Inr (truthy w))
                else Inr False) (\<lambda>inWindow.
       if inWindow
       then andThen (getProp mw ''weeklyMaintenance'') (\<lambda>wm.
            andThen (getProp wm ''modifiers'') (\<lambda>mods. lookupModifier mods activity))
       else Inr JNull)))))))"

text \<open>\<^verbatim>\<open>globalSettings.defaultClassification || 'neutral'\<close>: the global default class.\<close>

definition globalDefaultClass :: "rules_module \<Rightarrow> error + jsval" where
  "globalDefaultClass m =
     andThen (getProp (rulesConfig m) ''globalSettings'') (\<lambda>gs.
     andThen (getProp gs ''defaultClassification'') (\<lambda>d.
     Inr (if truthy d then d else JStr ''neutral'')))"

text \<open>
  \<^verbatim>\<open>intelligentFallback\<close>: \<^verbatim>\<open>activity.toLowerCase()\<close> exists on strings only; the first
  entry of the table whose key or lower-cased name occurs in the lower-cased activity
  decides. For an appointment the key is lower-cased too.
\<close>

definition intelligentFallback :: "platform \<Rightarrow> rules_module \<Rightarrow> jsval \<Rightarrow> string \<Rightarrow> error + jsval" where
  "intelligentFallback pf m activity activityType =
     (case activity of
        JStr a \<Rightarrow>
          (let activityLower = toLowerCase pf a in
           case (if activityType = ''status''
                 then find (\<lambda>(k, name, cls).
                        strIncludes activityLower k
                        \<or> strIncludes activityLower (toLowerCase pf name))
                      (statusDefinitions m)
                 else find (\<lambda>(k, name, cls).
                        strIncludes activityLower (toLowerCase pf k)
                        \<or> strIncludes activityLower (toLowerCase pf name))
                      (appointmentDefinitions m)) of
             Some (k, name, cls) \<Rightarrow> Inr (JStr cls)
           | None \<Rightarrow> globalDefaultClass m)
      | _ \<Rightarrow> Inl TypeError)"

text \<open>
  \<^verbatim>\<open>applyBaseRules\<close>: the entry of the base mapping when it is truthy, else the fallback,
  which is logged with the activity before it is returned.
\<close>

definition applyBaseRules :: "platform \<Rightarrow> rules_module \<Rightarrow> jsval \<Rightarrow> string \<Rightarrow> error + jsval" where
  "applyBaseRules pf m activity activityType =
     andThen (getProp (rulesConfig m)
                (if activityType = ''status'' then ''telemetryRules'' else ''appointmentRules''))
       (\<lambda>ruleSet.
     andThen (if truthy ruleSet then getIndex ruleSet activity else Inr ruleSet)
       (\<lambda>hit.
     if truthy hit then Inr hit
     else
       andThen (intelligentFallback pf m activity activityType) (\<lambda>fallbackResult.
       andThen (logLine [activity, fallbackResult]) (\<lambda>u. Inr fallbackResult))))"

text \<open>
  \<^verbatim>\<open>evaluateRules\<close>. Each of the three guarded blocks is entered when its enable flag and
  the field of the context it needs are truthy; when the result of its layer is truthy,
  the block logs the activity and the result (the group block the group as well) and
  returns the result from the function. The last block logs and returns the result of
  the base rules. \<open>layerGuard\<close> is the condition of a block; \<open>timeLayer\<close>,
  \<open>groupLayer\<close>, \<open>contextualLayer\<close> and \<open>baseLayer\<close> are the four blocks, the first
  three giving \<^verbatim>\<open>null\<close> when the block is not entered.
\<close>

definition layerGuard :: "rules_module \<Rightarrow> string \<Rightarrow> jsval \<Rightarrow> string \<Rightarrow> error + jsval" where
  "layerGuard m flag context field =
     andThen (getProp (rulesConfig m) ''globalSettings'') (\<lambda>gs.
     andThen (getProp gs flag) (\<lambda>en.
     if truthy en then getProp context field else Inr en))"

definition logged :: "jsval list \<Rightarrow> jsval \<Rightarrow> error + jsval" where
  "logged vs result =
     (if truthy result then andThen (logLine (vs @ [result])) (\<lambda>u. Inr result)
      else Inr result)"

definition timeLayer :: "platform \<Rightarrow> rules_module \<Rightarrow> jsval \<Rightarrow> jsval \<Rightarrow> error + jsval" where
  "timeLayer pf m activity context =
     andThen (layerGuard m ''enableTimeBasedRules'' context ''timestamp'') (\<lambda>timestamp.
     if truthy timestamp
     then andThen (applyTimeBasedRules pf m activity timestamp) (logged [activity])
     else Inr JNull)"

definition groupLayer :: "rules_module \<Rightarrow> jsval \<Rightarrow> jsval \<Rightarrow> error + jsval" where
  "groupLayer m activity context =
     andThen (layerGuard m ''enableGroupOverrides'' context ''equipmentGroup'') (\<lambda>grp.
     if truthy grp
     then andThen (applyGroupOverrides m activity grp) (logged [grp, activity])
     else Inr JNull)"

definition contextualLayer :: "rules_module \<Rightarrow> jsval \<Rightarrow> jsval \<Rightarrow> error + jsval" where
  "contextualLayer m activity context =
     andThen (layerGuard m ''enableContextualRules'' context ''conditions'') (\<lambda>conds.
     if truthy conds
     then andThen (applyContextualRules m activity conds) (logged [activity])
     else Inr JNull)"

definition baseLayer :: "platform \<Rightarrow> rules_module \<Rightarrow> jsval \<Rightarrow> string \<Rightarrow> error + jsval" where
  "baseLayer pf m activity activityType =
     andThen (applyBaseRules pf m activity activityType) (\<lambda>baseResult.
     andThen (logLine [activity, baseResult]) (\<lambda>u. Inr baseResult))"

definition evaluateRules :: "platform \<Rightarrow> rules_module \<Rightarrow> jsval \<Rightarrow> string \<Rightarrow> jsval \<Rightarrow> error + jsval" where
  "evaluateRules pf m activity activityType context =
     andThen (timeLayer pf m activity context) (\<lambda>timeBasedResult.
     if truthy timeBasedResult then Inr timeBasedResult
     else
       andThen (groupLayer m activity context) (\<lambda>groupResult.
       if truthy groupResult then Inr groupResult
       else
         andThen (contextualLayer m activity context) (\<lambda>contextualResult.
         if truthy contextualResult then Inr contextualResult
         else baseLayer pf m activity activityType)))"




section \<open>RuleStore: validation, migration and loading\<close>

definition requiredFields :: "string list" where
  "requiredFields = [''telemetryRules'', ''appointmentRules'', ''globalSettings'']"

definition validClassifications :: "jsval list" where
  "validClassifications = [JStr ''productive'', JStr ''non-productive'', JStr ''neutral'']"

text \<open>\<^verbatim>\<open>!rules[field] || typeof rules[field] !== 'object'\<close>, negated.\<close>

definition fieldPresent :: "jsval \<Rightarrow> string \<Rightarrow> bool" where
  "fieldPresent rules field =
     (case getProp rules field of
        Inr v \<Rightarrow> truthy v \<and> isObjectType v
      | Inl err \<Rightarrow> False)"

text \<open>\<^verbatim>\<open>{...a, ...b}\<close>.\<close>

definition spreadMerge :: "jsval \<Rightarrow> jsval \<Rightarrow> jsval" where
  "spreadMerge a b =
     JObj (foldl (\<lambda>acc (k, v). objSet acc k v) [] (ownEntries a @ ownEntries b))"

text \<open>\<^verbatim>\<open>if (!rules[field]) rules[field] = defaultRules[field]\<close>.\<close>

definition fillMissing :: "rules_module \<Rightarrow> string \<Rightarrow> jsval \<Rightarrow> error + jsval" where
  "fillMissing m field rules =
     andThen (getProp rules field) (\<lambda>cur.
     if truthy cur then Inr rules
     else andThen (getProp (defaultRules m) field) (\<lambda>d. setProp rules field d))"

text \<open>
  \<^verbatim>\<open>migrateRulesVersion\<close>; \<open>now\<close> is the current time as an ISO string. Its first line
  logs \<^verbatim>\<open>rules.version || '1.0'\<close>. The group rules that \<^verbatim>\<open>generateGroupRules()\<close> builds
  are those of the default document.
\<close>

definition migrateRulesVersion :: "rules_module \<Rightarrow> string \<Rightarrow> jsval \<Rightarrow> error + jsval" where
  "migrateRulesVersion m now rules =
     andThen (getProp rules ''version'') (\<lambda>v.
     andThen (logLine [if truthy v then v else JStr ''1.0'', JStr (version m)]) (\<lambda>u.
     andThen (setProp rules ''version'' (JStr (version m))) (\<lambda>r1.
     andThen (setProp r1 ''lastModified'' (JStr now)) (\<lambda>r2.
     andThen (fillMissing m ''groupSpecificRules'' r2) (\<lambda>r3.
     andThen (fillMissing m ''timeBasedRules'' r3) (\<lambda>r4.
     andThen (fillMissing m ''contextualRules'' r4) (\<lambda>r5.
     andThen (fillMissing m ''metadata'' r5) (\<lambda>r6.
     andThen (getProp (defaultRules m) ''globalSettings'') (\<lambda>dgs.
     andThen (getProp r6 ''globalSettings'') (\<lambda>gs.
     setProp r6 ''globalSettings'' (spreadMerge dgs gs)))))))))))"

text \<open>\<^verbatim>\<open>!rules.version || rules.version < this.version\<close>.\<close>

definition needsMigration :: "rules_module \<Rightarrow> jsval \<Rightarrow> error + bool" where
  "needsMigration m rules =
     andThen (getProp rules ''version'') (\<lambda>v.
     if \<not> truthy v then Inr True else valLess v (JStr (version m)))"

text \<open>
  \<^verbatim>\<open>validateAndMigrateRules\<close>: the boolean it returns, and the document as the migration
  left it (the source migrates the document in place). The loop over
  \<^verbatim>\<open>Object.entries(rules.telemetryRules)\<close> is the only check of classification values;
  it stops at the first entry whose value is none of the three classes, logs the entry
  and returns \<^verbatim>\<open>false\<close>.
\<close>

definition validateAndMigrateRules :: "rules_module \<Rightarrow> string \<Rightarrow> jsval \<Rightarrow> error + (bool \<times> jsval)" where
  "validateAndMigrateRules m now rules =
     (if \<not> (truthy rules \<and> isObjectType rules) then Inr (False, rules)
      else if \<not> list_all (fieldPresent rules) requiredFields then Inr (False, rules)
      else
        andThen (needsMigration m rules) (\<lambda>old.
        andThen (if old then migrateRulesVersion m now rules else Inr rules) (\<lambda>rules'.
        andThen (getProp rules' ''telemetryRules'') (\<lambda>telemetry.
        (case find (\<lambda>(st, classification). classification \<notin> set validClassifications)
                (ownEntries telemetry) of
           None \<Rightarrow> Inr (True, rules')
         | Some (st, classification) \<Rightarrow>
             andThen (logLine [JStr st, classification]) (\<lambda>u. Inr (False, rules')))))))"

text \<open>
  \<^verbatim>\<open>loadRulesFromGitHub\<close>: \<open>github\<close> is the parsed content of the remote file, or
  \<open>None\<close> when the request fails, is not a file or does not parse; every exception
  gives \<^verbatim>\<open>null\<close>.
\<close>

definition loadRulesFromGitHub :: "rules_module \<Rightarrow> string \<Rightarrow> jsval option \<Rightarrow> jsval" where
  "loadRulesFromGitHub m now github =
     (case github of
        None \<Rightarrow> JNull
      | Some rules \<Rightarrow>
          (case validateAndMigrateRules m now rules of
             Inr (ok, rules') \<Rightarrow> if ok then rules' else JNull
           | Inl err \<Rightarrow> JNull))"

text \<open>
  What \<^verbatim>\<open>localStorage.getItem('productivity_rules_v2')\<close> holds: nothing, text that
  \<^verbatim>\<open>JSON.parse\<close> rejects, or a document.
\<close>

datatype saved_item = No_item | Unparsable | Parsed jsval

text \<open>
  \<^verbatim>\<open>loadSavedOrDefaultRules\<close>: the remote snapshot, else the local one, else a shallow
  copy \<^verbatim>\<open>{ ...this.defaultRules }\<close> of the defaults; the \<^verbatim>\<open>catch\<close> block installs that
  copy too. After the local document is installed its version is logged, inside the
  \<^verbatim>\<open>try\<close>.
\<close>

definition installDefaults :: "rules_module \<Rightarrow> rules_module" where
  "installDefaults m = m\<lparr>rulesConfig := spreadMerge (defaultRules m) (JObj [])\<rparr>"

definition loadSavedOrDefaultRules ::
  "rules_module \<Rightarrow> string \<Rightarrow> jsval option \<Rightarrow> saved_item \<Rightarrow> rules_module" where
  "loadSavedOrDefaultRules m now github savedRules =
     (let githubRules = loadRulesFromGitHub m now github in
      if truthy githubRules then m\<lparr>rulesConfig := githubRules\<rparr>
      else
        (case savedRules of
           Parsed parsed \<Rightarrow>
             (case validateAndMigrateRules m now parsed of
                Inr (ok, parsed') \<Rightarrow>
                  if ok
                  then (case andThen (getProp parsed' ''version'') (\<lambda>v. logLine [v]) of
                          Inr u \<Rightarrow> m\<lparr>rulesConfig := parsed'\<rparr>
                        | Inl err \<Rightarrow> installDefaults m)
                  else installDefaults m
              | Inl err \<Rightarrow> installDefaults m)
         | Unparsable \<Rightarrow> installDefaults m
         | No_item \<Rightarrow> installDefaults m))"

section \<open>RuleStore: mutation and persistence\<close>

text \<open>
  \<^verbatim>\<open>localStorage\<close>: the stored documents by key, and which writes it accepts.
  \<^verbatim>\<open>setItem(key, text)\<close> raises when the quota is exhausted or storage is denied, which
  depends on what is stored already and on the item written, so that each write of a
  sequence can be the one that fails. The item stored is the value whose
  \<^verbatim>\<open>JSON.stringify\<close> text is written.
\<close>

record local_storage =
  items :: "string \<rightharpoonup> jsval"
  accepts :: "(string \<rightharpoonup> jsval) \<Rightarrow> string \<Rightarrow> jsval \<Rightarrow> bool"

definition setItem :: "local_storage \<Rightarrow> string \<Rightarrow> jsval \<Rightarrow> error + local_storage" where
  "setItem ls k v =
     (if accepts ls (items ls) k v then Inr (ls\<lparr>items := (items ls)(k \<mapsto> v)\<rparr>)
      else Inl StorageError)"

text \<open>
  The three mutations. Each returns how the call ended and the module as the call left
  it: the log line that ends \<^verbatim>\<open>updateRule\<close> and \<^verbatim>\<open>autoAddRule\<close> converts the value
  written to a string, after the rule is written and the dirty flag set.

  \<^verbatim>\<open>updateRule\<close>: no effect while no document is loaded; otherwise the rule is written
  and the dirty flag set. (While the live document is the shallow copy of the defaults,
  the table written is also the table of \<^verbatim>\<open>defaultRules\<close>; that aliasing is not
  modelled, and nothing below reads the defaults after an edit.)
\<close>

definition updateRule ::
  "rules_module \<Rightarrow> string \<Rightarrow> string \<Rightarrow> jsval \<Rightarrow> (error + unit) \<times> rules_module" where
  "updateRule m type' key value' =
     (if \<not> truthy (rulesConfig m) then (Inr (), m)
      else
        (let targetRules = (if type' = ''telemetry'' \<or> type' = ''status''
                            then ''telemetryRules'' else ''appointmentRules'') in
         case andThen (getProp (rulesConfig m) targetRules) (\<lambda>cur.
              andThen (setProp (if truthy cur then cur else JObj []) key value') (\<lambda>target.
              setProp (rulesConfig m) targetRules target)) of
           Inl err \<Rightarrow> (Inl err, m)
         | Inr rc \<Rightarrow>
             (logLine [JStr type', JStr key, value'], m\<lparr>rulesConfig := rc, isDirty := True\<rparr>)))"

text \<open>\<^verbatim>\<open>autoAddRule\<close> on a suggestion (type, activity, suggested classification).\<close>

definition autoAddRule ::
  "rules_module \<Rightarrow> string \<Rightarrow> string \<Rightarrow> jsval \<Rightarrow> (error + unit) \<times> rules_module" where
  "autoAddRule m type' activity suggestedClassification =
     (let targetRules = (if type' = ''status'' then ''telemetryRules'' else ''appointmentRules'') in
      case andThen (getProp (rulesConfig m) targetRules) (\<lambda>cur.
           andThen (setProp cur activity suggestedClassification) (\<lambda>target.
           setProp (rulesConfig m) targetRules target)) of
        Inl err \<Rightarrow> (Inl err, m)
      | Inr rc \<Rightarrow>
          (logLine [JStr activity, suggestedClassification],
           m\<lparr>rulesConfig := rc, isDirty := True\<rparr>))"

text \<open>\<^verbatim>\<open>resetToDefaults\<close>, the defaults being built already.\<close>

definition resetToDefaults :: "rules_module \<Rightarrow> rules_module" where
  "resetToDefaults m = (installDefaults m)\<lparr>isDirty := True\<rparr>"

text \<open>
  The three assignments of \<^verbatim>\<open>saveRules\<close> that stamp the document before it is written:
  \<^verbatim>\<open>lastModified\<close>, \<^verbatim>\<open>version\<close> and \<^verbatim>\<open>metadata.lastOptimization\<close>. The result is how
  they ended and the document as they left it: the third raises on a document without
  \<^verbatim>\<open>metadata\<close>, after the first two are made. The times that \<^verbatim>\<open>new Date()\<close> gives
  in the course of one save are taken to be one time, \<open>now\<close>.
\<close>

definition stampRules :: "string \<Rightarrow> rules_module \<Rightarrow> (error + unit) \<times> jsval" where
  "stampRules now m =
     (case andThen (setProp (rulesConfig m) ''lastModified'' (JStr now))
             (\<lambda>r1. setProp r1 ''version'' (JStr (version m))) of
        Inl err \<Rightarrow> (Inl err, rulesConfig m)
      | Inr r2 \<Rightarrow>
          (case andThen (getProp r2 ''metadata'') (\<lambda>meta.
                andThen (setProp meta ''lastOptimization'' (JStr now)) (\<lambda>meta'.
                setProp r2 ''metadata'' meta')) of
             Inl err \<Rightarrow> (Inl err, r2)
           | Inr r3 \<Rightarrow> (Inr (), r3)))"

text \<open>
  \<^verbatim>\<open>saveRules\<close>: the result, and the module and the storage as the call leaves them. The
  body runs in a \<^verbatim>\<open>try\<close> whose \<^verbatim>\<open>catch\<close> returns \<^verbatim>\<open>false\<close>; what was assigned before a
  failure stays assigned. The history entry and the event that follow the write are
  taken not to raise.
\<close>

definition saveRules :: "string \<Rightarrow> rules_module \<Rightarrow> local_storage \<Rightarrow> bool \<times> rules_module \<times> local_storage" where
  "saveRules now m ls =
     (if \<not> truthy (rulesConfig m) then (False, m, ls)
      else
        (case stampRules now m of
           (Inl err, rc) \<Rightarrow> (False, m\<lparr>rulesConfig := rc\<rparr>, ls)
         | (Inr u, rc) \<Rightarrow>
             (case setItem ls ''productivity_rules_v2'' rc of
                Inl err \<Rightarrow> (False, m\<lparr>rulesConfig := rc\<rparr>, ls)
              | Inr ls' \<Rightarrow> (True, m\<lparr>rulesConfig := rc\<rparr>, ls'))))"

text \<open>
  \<^verbatim>\<open>saveRulesWithBackup\<close>: the backup, the time with a shallow copy of the document, is
  written first, and when that write raises nothing else is done; the result of
  \<^verbatim>\<open>saveRules\<close> is not looked at, and the save to the remote store is simulated and
  succeeds.
\<close>

definition backup :: "string \<Rightarrow> rules_module \<Rightarrow> jsval" where
  "backup now m =
     JObj [(''timestamp'', JStr now), (''rules'', spreadMerge (rulesConfig m) (JObj []))]"

definition saveRulesWithBackup :: "string \<Rightarrow> rules_module \<Rightarrow> local_storage \<Rightarrow> bool \<times> rules_module \<times> local_storage" where
  "saveRulesWithBackup now m ls =
     (case setItem ls ''productivity_rules_backup'' (backup now m) of
        Inl err \<Rightarrow> (False, m, ls)
      | Inr ls1 \<Rightarrow>
          (case saveRules now m ls1 of (saved, m', ls') \<Rightarrow> (True, m', ls')))"

text \<open>
  One firing of the timer set up by \<^verbatim>\<open>startAutoSave\<close>:
  \<^verbatim>\<open>if (this.isDirty) { this.saveRulesWithBackup(); this.isDirty = false; }\<close>. The
  synchronous part of \<^verbatim>\<open>saveRulesWithBackup\<close>, which holds both writes to the storage,
  has run when the flag is assigned.
\<close>

definition autoSaveTick :: "string \<Rightarrow> rules_module \<times> local_storage \<Rightarrow> rules_module \<times> local_storage" where
  "autoSaveTick now s =
     (case s of (m, ls) \<Rightarrow>
        if isDirty m
        then (case saveRulesWithBackup now m ls of
                (ok, m', ls') \<Rightarrow> (m'\<lparr>isDirty := False\<rparr>, ls'))
        else (m, ls))"

section \<open>Properties of interval sequences\<close>

text \<open>
  \<open>adjacentAll P xs\<close>: every pair of consecutive records of \<open>xs\<close> satisfies \<open>P\<close>.
  \<open>boundedOverlap t xs\<close>: each record ends at most \<open>t\<close> milliseconds after its
  successor starts; with \<open>t = 0\<close> the sequence does not overlap.
\<close>

fun adjacentAll :: "(status_rec \<Rightarrow> status_rec \<Rightarrow> bool) \<Rightarrow> status_rec list \<Rightarrow> bool" where
  "adjacentAll P [] = True"
| "adjacentAll P [a] = True"
| "adjacentAll P (a # b # rest) = (P a b \<and> adjacentAll P (b # rest))"

definition boundedOverlap :: "int \<Rightarrow> status_rec list \<Rightarrow> bool" where
  "boundedOverlap t xs = adjacentAll (\<lambda>a b. endt a \<le> start b + t) xs"

definition validIntervals :: "status_rec list \<Rightarrow> bool" where
  "validIntervals xs = list_all (\<lambda>s. start s < endt s) xs"

text \<open>
  The current interval with which the loop of \<^verbatim>\<open>resolveOverlapsAdvanced\<close> continues after
  a conflict that is not resolved by a split.
\<close>

definition nextCurrent :: "env \<Rightarrow> status_rec \<Rightarrow> status_rec \<Rightarrow> status_rec" where
  "nextCurrent e current s =
     (case resolveConflictAdvanced e current s of
        Merge_weighted w1 w2 \<Rightarrow> mergeStatusWithWeight current s w1 w2
      | Priority_enhanced Current \<Rightarrow>
          current\<lparr>confidence := Some (orHalf (confidence current) + 1/10),
                  endt := (if endt s > endt current then endt s else endt current)\<rparr>
      | Priority_enhanced New \<Rightarrow> s\<lparr>confidence := Some (orHalf (confidence s) + 1/10)\<rparr>
      | _ \<Rightarrow> resolveConflictTraditional e current s)"

text \<open>Position \<open>i\<close> of \<open>xs\<close> is the middle of an anomalous triplet.\<close>

definition anomalousAt :: "status_rec list \<Rightarrow> nat \<Rightarrow> bool" where
  "anomalousAt xs i =
     (0 < i \<and> Suc i < length xs \<and> isAnomalousSequence (xs ! (i - 1)) (xs ! i) (xs ! Suc i))"

text \<open>
  The resolver never takes the \<^verbatim>\<open>split_intelligent\<close> action: the strategy is not
  \<^verbatim>\<open>intelligent\<close>, or no cached pattern has a success rate above 0.7 (nothing in the
  repository writes the pattern cache, so that \<^verbatim>\<open>getCache\<close> gives null).
\<close>

definition neverSplits :: "env \<Rightarrow> bool" where
  "neverSplits e =
     (conflictResolution (cfg e) \<noteq> ''intelligent''
      \<or> (case patternCache e of
            None \<Rightarrow> True
          | Some ps \<Rightarrow> list_all (\<lambda>p. \<not> successRate p > 7/10) ps))"


section \<open>Concrete inputs\<close>

text \<open>
  A raw status record as the status feed delivers it: status code and the two dates,
  nothing else set. \<open>defaultEnv\<close> is the compiled-in configuration
  (\<^verbatim>\<open>conflictResolution: 'priority'\<close>, \<^verbatim>\<open>gapTolerance: 60\<close>) with an empty pattern cache.
\<close>

definition rawStatus :: "string \<Rightarrow> int \<Rightarrow> int \<Rightarrow> status_rec" where
  "rawStatus s a b =
     \<lparr>status = s, status_title = None, start = a, endt = b, total_time = None,
      vacancy_code = None, confidence = None, consolidated_count = None,
      merged_sources = None, gap_filled = False, gap_type = None,
      anomaly_corrected = False, original_status = None, merge_type = None,
      original_statuses = None, split_type = None\<rparr>"

definition defaultEnv :: "equipment_group \<Rightarrow> env" where
  "defaultEnv g =
     \<lparr>cfg = \<lparr>conflictResolution = ''priority'', gapTolerance = 60\<rparr>,
      equipmentGroup = g, patternCache = None\<rparr>"

text \<open>
  Two records of one asset whose dates round to the same minutes (00:00 and 00:01),
  with equal status and source; the second reports the larger duration.
\<close>

definition dupFirst :: status_rec where
  "dupFirst = (rawStatus ''running'' 0 60000)\<lparr>total_time := Some 1\<rparr>"

definition dupSecond :: status_rec where
  "dupSecond = (rawStatus ''running'' 10000 50000)\<lparr>total_time := Some 2\<rparr>"

text \<open>Scenario A: 10:00 to 10:30 running and 10:20 to 10:45 stopped, confidence 0.5 each.\<close>

definition scenarioA_running :: status_rec where
  "scenarioA_running = (rawStatus ''running'' 36000000 37800000)\<lparr>confidence := Some (1/2)\<rparr>"

definition scenarioA_stopped :: status_rec where
  "scenarioA_stopped = (rawStatus ''stopped'' 37200000 38700000)\<lparr>confidence := Some (1/2)\<rparr>"

text \<open>
  Scenario D: running until 09:00:00, running again from 09:00:45. \<open>scenarioD_near\<close>
  starts at 09:00:30 instead.
\<close>

definition scenarioD_first :: status_rec where
  "scenarioD_first = rawStatus ''running'' 28800000 32400000"

definition scenarioD_second :: status_rec where
  "scenarioD_second = rawStatus ''running'' 32445000 36000000"

definition scenarioD_near :: status_rec where
  "scenarioD_near = rawStatus ''running'' 32430000 36000000"

text \<open>
  Scenario E: running 09:00:00 to 09:00:20, stopped to 09:00:25, running to 09:10:00.
\<close>

definition scenarioE :: "status_rec list" where
  "scenarioE =
     [rawStatus ''running'' 32400000 32420000,
      rawStatus ''stopped'' 32420000 32425000,
      rawStatus ''running'' 32425000 33000000]"

text \<open>
  Two records of different, incompatible status that overlap by 20 seconds:
  running 00:00:00 to 00:01:00 and maintenance 00:00:40 to 00:01:40.
\<close>

definition overlapExample :: "status_rec list" where
  "overlapExample = [rawStatus ''running'' 0 60000, rawStatus ''maintenance'' 40000 100000]"

text \<open>
  What the pipeline returns on Scenario E: the middle interval relabelled running,
  with the title \<^verbatim>\<open>status_title || status\<close> of its successor.
\<close>

definition scenarioE_resolved :: "status_rec list" where
  "scenarioE_resolved =
     [rawStatus ''running'' 32400000 32420000,
      (rawStatus ''stopped'' 32420000 32425000)
        \<lparr>status := ''running'', status_title := Some ''running'', anomaly_corrected := True,
          original_status := Some ''stopped'', confidence := Some (6/10)\<rparr>,
      rawStatus ''running'' 32425000 33000000]"

text \<open>
  A platform in the UTC time zone whose timestamps are milliseconds since the epoch;
  \<^verbatim>\<open>toTimeString\<close> of an invalid date starts with \<^verbatim>\<open>Inval\<close>. Lower-casing is that of
  ASCII letters.
\<close>

definition pad2 :: "nat \<Rightarrow> string" where
  "pad2 n = (if n < 10 then CHR ''0'' # showNat n else showNat n)"

definition utcTimeString :: "jsval \<Rightarrow> string" where
  "utcTimeString t =
     (case t of
        JNum ms \<Rightarrow> pad2 (nat ((ms div 3600000) mod 24)) @ '':'' @ pad2 (nat ((ms div 60000) mod 60))
      | _ \<Rightarrow> ''Inval'')"

definition asciiLower :: "string \<Rightarrow> string" where
  "asciiLower s =
     map (\<lambda>c. if 65 \<le> (of_char c :: nat) \<and> (of_char c :: nat) \<le> 90
               then char_of ((of_char c :: nat) + 32) else c) s"

definition samplePlatform :: platform where
  "samplePlatform = \<lparr>timeString = utcTimeString, toLowerCase = asciiLower\<rparr>"

text \<open>
  A rules document with the shape of the compiled-in defaults, cut down to a few
  entries: \<^verbatim>\<open>stopped\<close> is neutral in the base mapping, non-productive for the group
  \<^verbatim>\<open>caminhoes\<close>, and productive in the night shift window.
\<close>

definition sampleGlobalSettings :: jsval where
  "sampleGlobalSettings =
     JObj [(''conflictResolution'', JStr ''priority''),
           (''gapTolerance'', JNum 60),
           (''defaultClassification'', JStr ''neutral''),
           (''enableGroupOverrides'', JBool True),
           (''enableTimeBasedRules'', JBool True),
           (''enableContextualRules'', JBool True)]"

definition sampleRules :: jsval where
  "sampleRules =
     JObj [(''version'', JStr ''2.0.0''),
           (''telemetryRules'',
              JObj [(''running'', JStr ''productive''),
                    (''stopped'', JStr ''neutral''),
                    (''off'', JStr ''non-productive''),
                    (''maintenance'', JStr ''non-productive'')]),
           (''appointmentRules'',
              JObj [(''Abastecimento'', JStr ''productive''),
                    (''Bloqueio'', JStr ''non-productive''),
                    (''Aguardando'', JStr ''neutral'')]),
           (''groupSpecificRules'',
              JObj [(''caminhoes'',
                       JObj [(''name'', JStr ''Caminhoes''),
                             (''overrides'',
                                JObj [(''Aguardando'', JStr ''non-productive''),
                                      (''stopped'', JStr ''non-productive'')]),
                             (''enabled'', JBool True)])]),
           (''globalSettings'', sampleGlobalSettings),
           (''timeBasedRules'',
              JObj [(''businessHours'',
                       JObj [(''start'', JStr ''06:00''), (''end'', JStr ''18:00''),
                             (''modifiers'',
                                JObj [(''Aguardando'', JStr ''non-productive''),
                                      (''stopped'', JStr ''neutral'')])]),
                    (''nightShift'',
                       JObj [(''start'', JStr ''18:00''), (''end'', JStr ''06:00''),
                             (''modifiers'', JObj [(''stopped'', JStr ''productive'')])])]),
           (''contextualRules'',
              JObj [(''weatherDependent'',
                       JObj [(''enabled'', JBool True),
                             (''rainModifiers'',
                                JObj [(''Aguardando'', JStr ''neutral''),
                                      (''stopped'', JStr ''neutral'')])]),
                    (''maintenanceWindows'',
                       JObj [(''enabled'', JBool True),
                             (''weeklyMaintenance'',
                                JObj [(''day'', JStr ''sunday''),
                                      (''modifiers'', JObj [])])])]),
           (''metadata'', JObj [(''rulesCount'', JNum 7)])]"

definition sampleModule :: rules_module where
  "sampleModule =
     \<lparr>version = ''2.0.0'', rulesConfig = sampleRules, defaultRules = sampleRules,
      isDirty = False,
      statusDefinitions =
        [(''running'', ''Operando'', ''productive''),
         (''stopped'', ''Parado'', ''neutral''),
         (''off'', ''Motor Desligado'', ''non-productive'')],
      appointmentDefinitions =
        [(''Abastecimento'', ''Abastecimento'', ''productive''),
         (''Bloqueio'', ''Bloqueio'', ''non-productive''),
         (''Aguardando'', ''Aguardando'', ''neutral'')]\<rparr>"


definition nightGroupContext :: jsval where
  "nightGroupContext =
     JObj [(''timestamp'', JNum 72000000), (''equipmentGroup'', JStr ''caminhoes'')]"




text \<open>
  A stored document of the current version with a class value in
  \<^verbatim>\<open>appointmentRules\<close> that is none of the three classes.
\<close>

definition invalidAppointmentDoc :: jsval where
  "invalidAppointmentDoc =
     JObj [(''version'', JStr ''2.0.0''),
           (''telemetryRules'', JObj [(''running'', JStr ''productive'')]),
           (''appointmentRules'', JObj [(''Aguardando'', JStr ''sometimes'')]),
           (''globalSettings'', JObj [(''defaultClassification'', JStr ''neutral'')])]"


text \<open>
  A module with an unsaved edit, and three empty storages: one that accepts every
  write, one that rejects every write, and one whose quota the backup exhausts, so that
  it accepts a write only while it holds no backup.
\<close>

definition dirtyModule :: rules_module where
  "dirtyModule = sampleModule\<lparr>isDirty := True\<rparr>"

definition emptyStorage :: local_storage where
  "emptyStorage = \<lparr>items = Map.empty, accepts = (\<lambda>stored k v. True)\<rparr>"

definition fullStorage :: local_storage where
  "fullStorage = \<lparr>items = Map.empty, accepts = (\<lambda>stored k v. False)\<rparr>"

definition tightStorage :: local_storage where
  "tightStorage =
     \<lparr>items = Map.empty,
      accepts = (\<lambda>stored k v. stored ''productivity_rules_backup'' = None)\<rparr>"

section \<open>Verification: IntervalNormalizer\<close>

lemma dedupKey_dupFirst: "dedupKey dupFirst = ''0-60000-running-undefined''"
  by (simp add: dedupKey_def dupFirst_def rawStatus_def showInt_def showNat.simps
      digitChar_def roundToMinute_def showOpt_def)

lemma dedupKey_dupSecond: "dedupKey dupSecond = ''0-60000-running-undefined''"
  by (simp add: dedupKey_def dupSecond_def rawStatus_def showInt_def showNat.simps
      digitChar_def roundToMinute_def showOpt_def)

text \<open>
  Claim C2 says that two records colliding on the dedup key leave exactly one record, the
  one with the larger reported duration. The filter callback returns \<^verbatim>\<open>true\<close> for the
  later record when it reports the larger duration, but the earlier record has already
  been kept: on \<open>dupFirst\<close>, \<open>dupSecond\<close> (same key, durations 1 and 2) both records
  are in the output.
\<close>

theorem C2_removeDuplicates_keeps_both:
  "dedupKey dupFirst = dedupKey dupSecond
   \<and> removeDuplicatesAdvanced [dupFirst, dupSecond] = [dupFirst, dupSecond]"
  by (simp add: dedupKey_dupFirst dedupKey_dupSecond removeDuplicatesAdvanced_def
      totalTimeGreater_def)
    (simp add: dupFirst_def dupSecond_def)

section \<open>Verification: ConflictResolver\<close>

lemma score_scenarioA_running:
  "compositeScore (defaultEnv g) scenarioA_running = 87/20 + getContextScore ''running'' g / 10"
  by (simp add: compositeScore_def scenarioA_running_def rawStatus_def defaultEnv_def
      statusPriority_def orHalf_def)

lemma score_scenarioA_stopped:
  "compositeScore (defaultEnv g) scenarioA_stopped = 75/20 + getContextScore ''stopped'' g / 10"
  by (simp add: compositeScore_def scenarioA_stopped_def rawStatus_def defaultEnv_def
      statusPriority_def orHalf_def)

lemma resolution_scenarioA:
  "resolveConflictAdvanced (defaultEnv g) scenarioA_running scenarioA_stopped
   = Priority_enhanced Current"
  by (cases g)
    (simp_all add: resolveConflictAdvanced_def score_scenarioA_running
      score_scenarioA_stopped getContextScore_def Let_def, simp_all add: defaultEnv_def)

text \<open>
  Claim C3, as stated, fails: in Scenario A the composite scores are 4.4 and 3.8 (group
  without context rules), so they differ by 0.6, which is more than 0.2, and the resolver
  answers \<^verbatim>\<open>priority_enhanced\<close> with winner \<^verbatim>\<open>current\<close>, not \<^verbatim>\<open>merge_weighted\<close>.
\<close>

theorem C3_scenarioA_counterexample:
  "\<not> \<bar>compositeScore (defaultEnv Outros) scenarioA_running
        - compositeScore (defaultEnv Outros) scenarioA_stopped\<bar> \<le> 2/10
   \<and> resolveConflictAdvanced (defaultEnv Outros) scenarioA_running scenarioA_stopped
       = Priority_enhanced Current"
  by (simp add: resolution_scenarioA score_scenarioA_running score_scenarioA_stopped
      getContextScore_def)

text \<open>
  Claim C3, amended: for every equipment group the two composite scores of Scenario A
  differ by more than 0.2, the resolver lets the running interval win outright, and the
  result is a single interval from 10:00 to 10:45 with status running and confidence 0.6.
\<close>

theorem C3_scenarioA_priority_enhanced:
  "\<bar>compositeScore (defaultEnv g) scenarioA_running
     - compositeScore (defaultEnv g) scenarioA_stopped\<bar> > 2/10
   \<and> resolveConflictAdvanced (defaultEnv g) scenarioA_running scenarioA_stopped
       = Priority_enhanced Current
   \<and> resolveOverlapsAdvanced (defaultEnv g) [scenarioA_running, scenarioA_stopped]
       = [scenarioA_running\<lparr>confidence := Some (6/10), endt := 38700000\<rparr>]"
proof -
  have "\<bar>compositeScore (defaultEnv g) scenarioA_running
          - compositeScore (defaultEnv g) scenarioA_stopped\<bar> > 2/10"
    by (cases g)
      (simp_all add: score_scenarioA_running score_scenarioA_stopped getContextScore_def)
  moreover have "resolveOverlapsAdvanced (defaultEnv g) [scenarioA_running, scenarioA_stopped]
       = [scenarioA_running\<lparr>confidence := Some (6/10), endt := 38700000\<rparr>]"
    by (simp add: resolveOverlapsAdvanced_def resolution_scenarioA)
      (simp add: scenarioA_running_def scenarioA_stopped_def rawStatus_def orHalf_def)
  ultimately show ?thesis
    using resolution_scenarioA by simp
qed

section \<open>Verification: Consolidator\<close>

lemma adaptive_running:
  "status a = ''running'' \<Longrightarrow> status b = ''running'' \<Longrightarrow> gapTolerance (cfg e) = 60
   \<Longrightarrow> getAdaptiveTolerance e (status a) (status b) = 30"
  by (simp add: getAdaptiveTolerance_def toleranceRule_def)

lemma compatible_running: "areStatusesCompatible ''running'' ''running''"
  by (simp add: areStatusesCompatible_def compatibleGroups_def)

lemma abs_gap_30: "(\<bar>gapSeconds a b\<bar> \<le> 30) = (\<bar>start b - endt a\<bar> \<le> 30000)"
proof -
  have "\<bar>gapSeconds a b\<bar> = of_int \<bar>start b - endt a\<bar> / 1000"
    by (simp add: gapSeconds_def)
  also have "(\<dots> \<le> 30) = ((of_int \<bar>start b - endt a\<bar> :: rat) \<le> of_int 30000)"
    by (simp add: divide_le_eq)
  also have "\<dots> = (\<bar>start b - endt a\<bar> \<le> 30000)"
    by (simp only: of_int_le_iff)
  finally show ?thesis .
qed

text \<open>
  Claim C4, as stated, fails: with \<^verbatim>\<open>gapTolerance = 60\<close> the adaptive tolerance of a
  running/running pair is 30 seconds, the gap of Scenario D is 45 seconds, and the
  consolidation pass returns the two intervals as they were.
\<close>

theorem C4_scenarioD_counterexample:
  "getAdaptiveTolerance (defaultEnv Outros) (status scenarioD_first) (status scenarioD_second) = 30
   \<and> gapSeconds scenarioD_first scenarioD_second = 45
   \<and> consolidateConsecutiveAdvanced (defaultEnv Outros) [scenarioD_first, scenarioD_second]
       = [scenarioD_first, scenarioD_second]"
proof -
  have s: "status scenarioD_first = ''running''" "status scenarioD_second = ''running''"
    "gapTolerance (cfg (defaultEnv Outros)) = 60"
    "start scenarioD_second = 32445000" "endt scenarioD_first = 32400000"
    by (simp_all add: scenarioD_first_def scenarioD_second_def rawStatus_def defaultEnv_def)
  have "\<not> shouldConsolidate (defaultEnv Outros) scenarioD_first scenarioD_second"
    using abs_gap_30 [of scenarioD_first scenarioD_second] s
    by (simp add: shouldConsolidate_def Let_def getAdaptiveTolerance_def toleranceRule_def)
  then show ?thesis using s
    by (simp add: consolidateConsecutiveAdvanced_def getAdaptiveTolerance_def
        toleranceRule_def gapSeconds_def)
qed

text \<open>
  Claim C4, amended: for two consecutive intervals of status running and a base tolerance
  of 60 seconds, the adaptive tolerance is 30 seconds (multiplier 0.5), and the
  consolidation pass merges the two into one interval exactly when the gap (or overlap)
  between them is at most 30 seconds; otherwise, as for a gap of 45 seconds, both
  intervals are kept.
\<close>

theorem C4_running_pair_consolidation:
  assumes "status a = ''running''" and "status b = ''running''"
    and "gapTolerance (cfg e) = 60"
  shows "getAdaptiveTolerance e (status a) (status b) = 30
     \<and> consolidateConsecutiveAdvanced e [a, b]
         = (if \<bar>start b - endt a\<bar> \<le> 30000 then [mergeStatusAdvanced a b] else [a, b])"
proof -
  have tol: "getAdaptiveTolerance e (status a) (status b) = 30"
    using assms by (rule adaptive_running)
  have "shouldConsolidate e a b = (\<bar>start b - endt a\<bar> \<le> 30000)"
    using assms compatible_running abs_gap_30 [of a b]
    by (auto simp add: shouldConsolidate_def Let_def getAdaptiveTolerance_def toleranceRule_def)
  then show ?thesis using tol
    by (simp add: consolidateConsecutiveAdvanced_def)
qed

text \<open>
  Witness for C4: the running interval ending 09:00:00 and the one starting 09:00:30
  are merged into one.
\<close>

theorem C4_running_pair_consolidation_witness:
  "status scenarioD_first = ''running'' \<and> status scenarioD_near = ''running''
   \<and> gapTolerance (cfg (defaultEnv Outros)) = 60
   \<and> consolidateConsecutiveAdvanced (defaultEnv Outros) [scenarioD_first, scenarioD_near]
       = [mergeStatusAdvanced scenarioD_first scenarioD_near]"
proof -
  have s: "status scenarioD_first = ''running''" "status scenarioD_near = ''running''"
    "gapTolerance (cfg (defaultEnv Outros)) = 60"
    "start scenarioD_near = 32430000" "endt scenarioD_first = 32400000"
    by (simp_all add: scenarioD_first_def scenarioD_near_def rawStatus_def defaultEnv_def)
  show ?thesis
    using C4_running_pair_consolidation [OF s(1) s(2) s(3)] s by simp
qed

section \<open>Verification: invariants of the pipeline stages\<close>

lemma adjacentAll_Cons:
  "adjacentAll P (a # ys) = (ys = [] \<or> (P a (hd ys) \<and> adjacentAll P ys))"
  by (cases ys) simp_all

lemma adjacentAll_nth:
  "adjacentAll P xs = (\<forall>i. Suc i < length xs \<longrightarrow> P (xs ! i) (xs ! Suc i))"
proof (induction P xs rule: adjacentAll.induct)
  case (1 P)
  then show ?case by simp
next
  case (2 P a)
  then show ?case by simp
next
  case (3 P a b rest)
  show ?case
  proof
    assume h: "adjacentAll P (a # b # rest)"
    show "\<forall>i. Suc i < length (a # b # rest) \<longrightarrow> P ((a # b # rest) ! i) ((a # b # rest) ! Suc i)"
    proof (intro allI impI)
      fix i assume "Suc i < length (a # b # rest)"
      then show "P ((a # b # rest) ! i) ((a # b # rest) ! Suc i)"
        using h 3 by (cases i) auto
    qed
  next
    assume h: "\<forall>i. Suc i < length (a # b # rest) \<longrightarrow> P ((a # b # rest) ! i) ((a # b # rest) ! Suc i)"
    have "P a b" using h [rule_format, of 0] by simp
    moreover have "\<forall>i. Suc i < length (b # rest) \<longrightarrow> P ((b # rest) ! i) ((b # rest) ! Suc i)"
    proof (intro allI impI)
      fix i assume "Suc i < length (b # rest)"
      then show "P ((b # rest) ! i) ((b # rest) ! Suc i)"
        using h [rule_format, of "Suc i"] by simp
    qed
    ultimately show "adjacentAll P (a # b # rest)" using 3 by simp
  qed
qed

lemma resolveOverlaps_loop_step:
  "resolveOverlaps_loop e c (s # rest) =
     (if start s < endt c \<and> endt c - start s > 30000 then
        (case resolveConflictAdvanced e c s of
           Split_intelligent sp \<Rightarrow>
             fst (splitStatusIntelligent c s sp)
               # resolveOverlaps_loop e (snd (splitStatusIntelligent c s sp)) rest
         | _ \<Rightarrow> resolveOverlaps_loop e (nextCurrent e c s) rest)
      else c # resolveOverlaps_loop e s rest)"
  by (simp add: nextCurrent_def split: resolution.split winner.split)

lemma detectPattern_rate:
  assumes "patternCache e = Some ps" and "list_all (\<lambda>p. \<not> successRate p > 7/10) ps"
  shows "\<not> fst (detectPattern e c s) > 7/10"
proof (cases "find (\<lambda>p. hp_status1 p = status c \<and> hp_status2 p = status s) ps")
  case None
  with assms(1) show ?thesis by (simp add: detectPattern_def)
next
  case (Some p)
  then have "p \<in> set ps" by (auto simp add: find_Some_iff)
  with assms(2) have "\<not> successRate p > 7/10" by (simp add: list_all_iff)
  with Some assms(1) show ?thesis by (simp add: detectPattern_def)
qed

lemma no_split:
  assumes "neverSplits e"
  shows "resolveConflictAdvanced e c s \<noteq> Split_intelligent sp"
proof (cases "conflictResolution (cfg e) = ''intelligent''")
  case False
  then show ?thesis by (simp add: resolveConflictAdvanced_def Let_def)
next
  case True
  have "\<not> fst (detectPattern e c s) > 7/10"
  proof (cases "patternCache e")
    case None
    then show ?thesis by (simp add: detectPattern_def)
  next
    case (Some ps)
    with assms True have "list_all (\<lambda>p. \<not> successRate p > 7/10) ps"
      by (simp add: neverSplits_def)
    with Some show ?thesis by (rule detectPattern_rate)
  qed
  with True show ?thesis
    by (cases "detectPattern e c s") (simp add: resolveConflictAdvanced_def Let_def)
qed

lemma resolveOverlaps_loop_step':
  "neverSplits e \<Longrightarrow>
   resolveOverlaps_loop e c (s # rest) =
     (if endt c - start s > 30000 then resolveOverlaps_loop e (nextCurrent e c s) rest
      else c # resolveOverlaps_loop e s rest)"
  using no_split [of e c s]
  by (auto simp add: resolveOverlaps_loop_step simp del: resolveOverlaps_loop.simps split: resolution.split)

lemma nextCurrent_start:
  "start (nextCurrent e c s) = start c \<or> start (nextCurrent e c s) = start s"
  by (simp add: nextCurrent_def mergeStatusWithWeight_def resolveConflictTraditional_def Let_def
      split: resolution.split winner.split)

lemma nextCurrent_valid:
  "start c < endt c \<Longrightarrow> start s < endt s \<Longrightarrow> start c \<le> start s
   \<Longrightarrow> start (nextCurrent e c s) < endt (nextCurrent e c s)"
  by (simp add: nextCurrent_def mergeStatusWithWeight_def resolveConflictTraditional_def Let_def
      split: resolution.split winner.split)

lemma resolveOverlaps_loop_inv:
  assumes "neverSplits e"
    and "sorted (map start (c # rest))"
  shows "resolveOverlaps_loop e c rest \<noteq> []
     \<and> start c \<le> start (hd (resolveOverlaps_loop e c rest))
     \<and> sorted (map start (resolveOverlaps_loop e c rest))
     \<and> boundedOverlap 30000 (resolveOverlaps_loop e c rest)"
  using assms(2)
proof (induction rest arbitrary: c)
  case Nil
  then show ?case by (simp add: boundedOverlap_def)
next
  case (Cons s rest)
  have step: "resolveOverlaps_loop e c (s # rest) =
     (if endt c - start s > 30000 then resolveOverlaps_loop e (nextCurrent e c s) rest
      else c # resolveOverlaps_loop e s rest)"
    using assms(1) by (rule resolveOverlaps_loop_step')
  from Cons.prems have cs: "start c \<le> start s" and srt: "sorted (map start (s # rest))"
    and call: "\<forall>x\<in>set rest. start c \<le> start x"
    by auto
  show ?case
  proof (cases "endt c - start s > 30000")
    case True
    let ?n = "nextCurrent e c s"
    have ns: "start c \<le> start ?n" "start ?n \<le> start s"
      using nextCurrent_start [of e c s] cs by auto
    have "sorted (map start (?n # rest))"
      using srt ns by auto
    from Cons.IH [OF this] ns True step show ?thesis by auto
  next
    case False
    from Cons.IH [OF srt] have ih: "resolveOverlaps_loop e s rest \<noteq> []"
      "start s \<le> start (hd (resolveOverlaps_loop e s rest))"
      "sorted (map start (resolveOverlaps_loop e s rest))"
      "boundedOverlap 30000 (resolveOverlaps_loop e s rest)"
      by auto
    let ?ys = "resolveOverlaps_loop e s rest"
    have "\<forall>y\<in>set ?ys. start (hd ?ys) \<le> start y"
      using ih(1,3) by (cases ?ys) auto
    then have "sorted (map start (c # ?ys))"
      using ih cs by auto
    moreover have "boundedOverlap 30000 (c # ?ys)"
      using ih False by (simp add: boundedOverlap_def adjacentAll_Cons)
    ultimately show ?thesis using step False by simp
  qed
qed

lemma resolveOverlaps_loop_valid:
  assumes "neverSplits e"
    and "sorted (map start (c # rest))" and "validIntervals (c # rest)"
  shows "validIntervals (resolveOverlaps_loop e c rest)"
  using assms(2,3)
proof (induction rest arbitrary: c)
  case Nil
  then show ?case by (simp add: validIntervals_def)
next
  case (Cons s rest)
  have step: "resolveOverlaps_loop e c (s # rest) =
     (if endt c - start s > 30000 then resolveOverlaps_loop e (nextCurrent e c s) rest
      else c # resolveOverlaps_loop e s rest)"
    using assms(1) by (rule resolveOverlaps_loop_step')
  from Cons.prems have cs: "start c \<le> start s" and srt: "sorted (map start (s # rest))"
    and v: "start c < endt c" "start s < endt s" "validIntervals (s # rest)" "validIntervals rest"
    by (auto simp add: validIntervals_def)
  show ?case
  proof (cases "endt c - start s > 30000")
    case True
    let ?n = "nextCurrent e c s"
    have ns: "start ?n \<le> start s"
      using nextCurrent_start [of e c s] cs by auto
    have "sorted (map start (?n # rest))"
      using srt ns by auto
    moreover have "validIntervals (?n # rest)"
      using nextCurrent_valid [OF v(1) v(2) cs, of e] v(4) by (simp add: validIntervals_def)
    ultimately show ?thesis using Cons.IH True step by simp
  next
    case False
    from Cons.IH [OF srt v(3)] v(1) step False show ?thesis
      by (simp add: validIntervals_def)
  qed
qed

lemma resolveOverlapsAdvanced_inv:
  assumes "neverSplits e" and "sorted (map start xs)"
  shows "sorted (map start (resolveOverlapsAdvanced e xs))
     \<and> boundedOverlap 30000 (resolveOverlapsAdvanced e xs)"
proof (cases xs)
  case Nil
  then show ?thesis by (simp add: resolveOverlapsAdvanced_def boundedOverlap_def)
next
  case (Cons a ys)
  show ?thesis
  proof (cases ys)
    case Nil
    with Cons show ?thesis by (simp add: resolveOverlapsAdvanced_def boundedOverlap_def)
  next
    case (Cons b zs)
    with \<open>xs = a # ys\<close> assms(2) resolveOverlaps_loop_inv [OF assms(1), of a ys]
    show ?thesis by (simp add: resolveOverlapsAdvanced_def)
  qed
qed

lemma resolveOverlapsAdvanced_valid:
  assumes "neverSplits e" and "sorted (map start xs)"
    and "validIntervals xs"
  shows "validIntervals (resolveOverlapsAdvanced e xs)"
proof (cases xs)
  case Nil
  then show ?thesis by (simp add: resolveOverlapsAdvanced_def validIntervals_def)
next
  case (Cons a ys)
  show ?thesis
  proof (cases ys)
    case Nil
    with Cons assms(3) show ?thesis by (simp add: resolveOverlapsAdvanced_def)
  next
    case (Cons b zs)
    with \<open>xs = a # ys\<close> assms(2,3) resolveOverlaps_loop_valid [OF assms(1), of a ys]
    show ?thesis by (simp add: resolveOverlapsAdvanced_def)
  qed
qed

lemma mergeStatusAdvanced_bounds [simp]:
  "start (mergeStatusAdvanced a b) = start a" "endt (mergeStatusAdvanced a b) = endt b"
  by (simp_all add: mergeStatusAdvanced_def)

lemma consolidate_loop_inv:
  assumes "boundedOverlap t (c # rest)"
  shows "consolidate_loop e c rest \<noteq> []
     \<and> start (hd (consolidate_loop e c rest)) = start c
     \<and> boundedOverlap t (consolidate_loop e c rest)"
  using assms
proof (induction rest arbitrary: c)
  case Nil
  then show ?case by (simp add: boundedOverlap_def)
next
  case (Cons s rest)
  from Cons.prems have b: "endt c \<le> start s + t" "boundedOverlap t (s # rest)"
    by (simp_all add: boundedOverlap_def)
  show ?case
  proof (cases "shouldConsolidate e c s")
    case True
    have "boundedOverlap t (mergeStatusAdvanced c s # rest)"
      using b(2) by (simp add: boundedOverlap_def adjacentAll_Cons)
    from Cons.IH [OF this] True show ?thesis by simp
  next
    case False
    from Cons.IH [OF b(2)] b(1) False show ?thesis
      by (simp add: boundedOverlap_def adjacentAll_Cons)
  qed
qed

lemma consolidate_loop_sorted_valid:
  assumes "sorted (map start (c # rest))" and "validIntervals (c # rest)"
  shows "sorted (map start (consolidate_loop e c rest))
     \<and> validIntervals (consolidate_loop e c rest)
     \<and> start (hd (consolidate_loop e c rest)) = start c
     \<and> consolidate_loop e c rest \<noteq> []"
  using assms
proof (induction rest arbitrary: c)
  case Nil
  then show ?case by simp
next
  case (Cons s rest)
  from Cons.prems have p: "start c \<le> start s" "sorted (map start (s # rest))"
    "start c < endt c" "start s < endt s" "validIntervals (s # rest)" "validIntervals rest"
    "\<forall>x\<in>set rest. start c \<le> start x"
    by (auto simp add: validIntervals_def)
  show ?case
  proof (cases "shouldConsolidate e c s")
    case True
    let ?m = "mergeStatusAdvanced c s"
    have "sorted (map start (?m # rest))" using p by auto
    moreover have "validIntervals (?m # rest)" using p by (simp add: validIntervals_def)
    ultimately show ?thesis using Cons.IH [of ?m] True by simp
  next
    case False
    let ?ys = "consolidate_loop e s rest"
    from Cons.IH [OF p(2) p(5)] have ih: "sorted (map start ?ys)" "validIntervals ?ys"
      "start (hd ?ys) = start s" "?ys \<noteq> []" by auto
    have "\<forall>y\<in>set ?ys. start (hd ?ys) \<le> start y"
      using ih(1,4) by (cases ?ys) auto
    then have "sorted (map start (c # ?ys))" using ih p(1) by auto
    then show ?thesis using ih p(3) False by (simp add: validIntervals_def)
  qed
qed

lemma consolidateConsecutiveAdvanced_bounded:
  "boundedOverlap t xs \<Longrightarrow> boundedOverlap t (consolidateConsecutiveAdvanced e xs)"
proof (cases xs)
  case Nil
  then show ?thesis by (simp add: consolidateConsecutiveAdvanced_def boundedOverlap_def)
next
  case (Cons a ys)
  assume b: "boundedOverlap t xs"
  show ?thesis
  proof (cases ys)
    case Nil
    with Cons show ?thesis by (simp add: consolidateConsecutiveAdvanced_def boundedOverlap_def)
  next
    case (Cons b' zs)
    with \<open>xs = a # ys\<close> b consolidate_loop_inv [of t a ys e]
    show ?thesis by (simp add: consolidateConsecutiveAdvanced_def)
  qed
qed

lemma consolidateConsecutiveAdvanced_sorted_valid:
  assumes "sorted (map start xs)" and "validIntervals xs"
  shows "sorted (map start (consolidateConsecutiveAdvanced e xs))
     \<and> validIntervals (consolidateConsecutiveAdvanced e xs)"
proof (cases xs)
  case Nil
  then show ?thesis by (simp add: consolidateConsecutiveAdvanced_def validIntervals_def)
next
  case (Cons a ys)
  show ?thesis
  proof (cases ys)
    case Nil
    with Cons assms show ?thesis by (simp add: consolidateConsecutiveAdvanced_def)
  next
    case (Cons b' zs)
    with \<open>xs = a # ys\<close> assms consolidate_loop_sorted_valid [of a ys e]
    show ?thesis by (simp add: consolidateConsecutiveAdvanced_def)
  qed
qed

lemma gapFiller_bounds [simp]:
  "start (gapFiller e a b) = endt a" "endt (gapFiller e a b) = start b"
  by (simp_all add: gapFiller_def split: prod.split)

lemma isSmallGap_pos: "isSmallGap e a b \<Longrightarrow> endt a < start b"
  by (simp add: isSmallGap_def gapSeconds_def)

lemma fill_hd: "xs \<noteq> [] \<Longrightarrow> fillSmallGapsIntelligent e xs \<noteq> [] \<and> hd (fillSmallGapsIntelligent e xs) = hd xs"
  by (induction e xs rule: fillSmallGapsIntelligent.induct) simp_all

lemma fill_bounded:
  "0 \<le> t \<Longrightarrow> boundedOverlap t xs \<Longrightarrow> boundedOverlap t (fillSmallGapsIntelligent e xs)"
proof (induction e xs rule: fillSmallGapsIntelligent.induct)
  case (1 e)
  then show ?case by simp
next
  case (2 e a)
  then show ?case by simp
next
  case (3 e a b rest)
  from 3 have ih: "boundedOverlap t (fillSmallGapsIntelligent e (b # rest))"
    and ab: "endt a \<le> start b + t"
    by (auto simp add: boundedOverlap_def)
  have hd: "fillSmallGapsIntelligent e (b # rest) \<noteq> []" "hd (fillSmallGapsIntelligent e (b # rest)) = b"
    using fill_hd [of "b # rest" e] by simp_all
  show ?case
    using ih ab hd \<open>0 \<le> t\<close> by (simp add: boundedOverlap_def adjacentAll_Cons)
qed

lemma fill_valid:
  "validIntervals xs \<Longrightarrow> validIntervals (fillSmallGapsIntelligent e xs)"
  by (induction e xs rule: fillSmallGapsIntelligent.induct)
    (auto simp add: validIntervals_def dest: isSmallGap_pos)

lemma fill_no_small_gap:
  "adjacentAll (\<lambda>a b. \<not> isSmallGap e a b) (fillSmallGapsIntelligent e xs)"
proof (induction e xs rule: fillSmallGapsIntelligent.induct)
  case (1 e)
  then show ?case by simp
next
  case (2 e a)
  then show ?case by simp
next
  case (3 e a b rest)
  have hd: "fillSmallGapsIntelligent e (b # rest) \<noteq> []" "hd (fillSmallGapsIntelligent e (b # rest)) = b"
    using fill_hd [of "b # rest" e] by simp_all
  have "\<not> isSmallGap e a (gapFiller e a b)" "\<not> isSmallGap e (gapFiller e a b) b"
    by (simp_all add: isSmallGap_def gapSeconds_def)
  with 3 hd show ?case by (simp add: adjacentAll_Cons)
qed

lemma fill_identity:
  "adjacentAll (\<lambda>a b. \<not> isSmallGap e a b) xs \<Longrightarrow> fillSmallGapsIntelligent e xs = xs"
  by (induction e xs rule: fillSmallGapsIntelligent.induct) simp_all

lemma consolidate_loop_identity:
  "adjacentAll (\<lambda>a b. \<not> shouldConsolidate e a b) (c # rest) \<Longrightarrow> consolidate_loop e c rest = c # rest"
  by (induction rest arbitrary: c) simp_all

lemma consolidate_identity:
  assumes "adjacentAll (\<lambda>a b. \<not> shouldConsolidate e a b) xs"
  shows "consolidateConsecutiveAdvanced e xs = xs"
proof (cases xs)
  case Nil
  then show ?thesis by (simp add: consolidateConsecutiveAdvanced_def)
next
  case (Cons a ys)
  with assms show ?thesis
    by (cases ys)
      (simp_all add: consolidateConsecutiveAdvanced_def consolidate_loop_identity
        del: consolidate_loop.simps adjacentAll.simps)
qed

lemma resolveOverlaps_loop_identity:
  "boundedOverlap 30000 (c # rest) \<Longrightarrow> resolveOverlaps_loop e c rest = c # rest"
  by (induction rest arbitrary: c) (simp_all add: boundedOverlap_def)

lemma resolveOverlaps_identity:
  assumes "boundedOverlap 30000 xs"
  shows "resolveOverlapsAdvanced e xs = xs"
proof (cases xs)
  case Nil
  then show ?thesis by (simp add: resolveOverlapsAdvanced_def)
next
  case (Cons a ys)
  with assms show ?thesis
    by (cases ys)
      (simp_all add: resolveOverlapsAdvanced_def resolveOverlaps_loop_identity
        del: resolveOverlaps_loop.simps)
qed

lemma optimize_loop_length: "length (optimize_loop p xs) = length xs"
  by (induction p xs rule: optimize_loop.induct) simp_all

lemma optimize_loop_nth:
  "i < length xs \<Longrightarrow>
   optimize_loop p xs ! i =
     (if Suc i < length xs
      then (case (if i = 0 then p else Some (xs ! (i - 1))) of
              None \<Rightarrow> xs ! i
            | Some q \<Rightarrow> if isAnomalousSequence q (xs ! i) (xs ! Suc i)
                        then correctAnomalousSequence q (xs ! i) (xs ! Suc i) else xs ! i)
      else xs ! i)"
proof (induction p xs arbitrary: i rule: optimize_loop.induct)
  case (1 prev)
  then show ?case by simp
next
  case (2 prev current)
  then show ?case by simp
next
  case (3 prev current nxt rest)
  show ?case
  proof (cases i)
    case 0
    then show ?thesis by (simp split: option.split)
  next
    case (Suc j)
    with 3 show ?thesis by (cases j) simp_all
  qed
qed

lemma applyML_length: "length (applyMLOptimizations xs) = length xs"
  by (simp add: applyMLOptimizations_def optimize_loop_length)

lemma applyML_nth:
  assumes "i < length xs"
  shows "applyMLOptimizations xs ! i =
     (if anomalousAt xs i
      then correctAnomalousSequence (xs ! (i - 1)) (xs ! i) (xs ! Suc i) else xs ! i)"
proof (cases "length xs < 3")
  case True
  then have "\<not> anomalousAt xs i" by (auto simp add: anomalousAt_def)
  with True show ?thesis by (simp add: applyMLOptimizations_def)
next
  case False
  with assms show ?thesis
    by (auto simp add: applyMLOptimizations_def optimize_loop_nth anomalousAt_def)
qed

lemma mostLikely_pair: "fst (findMostLikelyStatus [p, n]) = status p"
  by (simp add: Let_def)

lemma correct_fields:
  "correctAnomalousSequence p c n =
     c\<lparr>status := status p,
       status_title := Some (snd (findMostLikelyStatus [p, n])),
       anomaly_corrected := True,
       original_status := Some (status c),
       confidence := Some (6/10)\<rparr>"
  using mostLikely_pair [of p n]
  by (cases "findMostLikelyStatus [p, n]")
    (simp add: correctAnomalousSequence_def del: findMostLikelyStatus.simps)

lemma correct_bounds [simp]:
  "start (correctAnomalousSequence p c n) = start c"
  "endt (correctAnomalousSequence p c n) = endt c"
  "status (correctAnomalousSequence p c n) = status p"
  by (simp_all add: correct_fields del: findMostLikelyStatus.simps)

lemma applyML_start: "map start (applyMLOptimizations xs) = map start xs"
  by (rule nth_equalityI) (simp_all add: applyML_length applyML_nth)

lemma applyML_endt: "map endt (applyMLOptimizations xs) = map endt xs"
  by (rule nth_equalityI) (simp_all add: applyML_length applyML_nth)

lemma isAnomalousSequence_iff:
  "isAnomalousSequence p c n =
     ((status p = ''running'' \<and> status c = ''stopped'' \<and> status n = ''running''
        \<and> endt c - start c < 30000)
      \<or> (status p = ''off'' \<and> status c = ''running'' \<and> status n = ''off''
        \<and> endt c - start c < 60000)
      \<or> (status p = ''maintenance'' \<and> status c = ''running'' \<and> status n = ''maintenance''
        \<and> endt c - start c < 300000))"
  by (auto simp add: isAnomalousSequence_def anomalousPatterns_def Let_def)

lemma applyML_status:
  assumes "j < length xs"
  shows "status (applyMLOptimizations xs ! j) =
     (if anomalousAt xs j then status (xs ! (j - 1)) else status (xs ! j))"
  using assms by (simp add: applyML_nth)

lemma applyML_bounds_nth:
  assumes "j < length xs"
  shows "start (applyMLOptimizations xs ! j) = start (xs ! j)"
    and "endt (applyMLOptimizations xs ! j) = endt (xs ! j)"
  using assms by (simp_all add: applyML_nth)

lemma applyML_no_anomaly:
  "\<not> anomalousAt (applyMLOptimizations xs) i"
proof
  let ?zs = "applyMLOptimizations xs"
  assume a: "anomalousAt ?zs i"
  then have i: "0 < i" "Suc i < length xs" "i - 1 < length xs" "i < length xs"
    by (auto simp add: anomalousAt_def applyML_length)
  from a have z: "isAnomalousSequence (?zs ! (i - 1)) (?zs ! i) (?zs ! Suc i)"
    by (simp add: anomalousAt_def)
  note st = applyML_status [OF i(3)] applyML_status [OF i(4)] applyML_status [OF i(2)]
  note bd = applyML_bounds_nth [OF i(4)]
  have prevnext: "anomalousAt xs (i - 1) \<Longrightarrow> status (xs ! (i - 1 - 1)) = status (xs ! i)"
    using i by (auto simp add: anomalousAt_def isAnomalousSequence_iff)
  have nextprev: "anomalousAt xs (Suc i) \<Longrightarrow> status (xs ! Suc (Suc i)) = status (xs ! i)"
    by (auto simp add: anomalousAt_def isAnomalousSequence_iff)
  show False
  proof (cases "anomalousAt xs i")
    case True
    then have w: "isAnomalousSequence (xs ! (i - 1)) (xs ! i) (xs ! Suc i)"
      by (simp add: anomalousAt_def)
    show False
    proof (cases "anomalousAt xs (i - 1)")
      case True
      with prevnext z w st \<open>anomalousAt xs i\<close> show False
        by (auto simp add: isAnomalousSequence_iff split: if_splits)
    next
      case False
      with z w st \<open>anomalousAt xs i\<close> show False
        by (auto simp add: isAnomalousSequence_iff split: if_splits)
    qed
  next
    case False
    then have w: "\<not> isAnomalousSequence (xs ! (i - 1)) (xs ! i) (xs ! Suc i)"
      using i by (simp add: anomalousAt_def)
    have nx: "anomalousAt xs (Suc i) \<Longrightarrow> status (xs ! (Suc i - 1)) = status (xs ! i)" by simp
    show False
    proof (cases "anomalousAt xs (i - 1)")
      case True
      with prevnext z st False bd show False
        by (auto simp add: isAnomalousSequence_iff split: if_splits)
    next
      case n1: False
      show False
      proof (cases "anomalousAt xs (Suc i)")
        case True
        with z st False bd n1 show False
          by (auto simp add: isAnomalousSequence_iff split: if_splits)
      next
        case n2: False
        have "isAnomalousSequence (xs ! (i - 1)) (xs ! i) (xs ! Suc i)"
          using z st False bd n1 n2 by (simp add: isAnomalousSequence_iff)
        with w show False by simp
      qed
    qed
  qed
qed

lemma applyML_idempotent:
  "applyMLOptimizations (applyMLOptimizations xs) = applyMLOptimizations xs"
  by (rule nth_equalityI) (simp_all add: applyML_length applyML_nth applyML_no_anomaly)

lemma removeDuplicates_filter_subset:
  "set (removeDuplicates_filter seen xs) \<subseteq> set xs"
  by (induction xs arbitrary: seen) (auto split: option.split)

lemma sorted_starts_adjacent:
  "sorted (map start xs) = adjacentAll (\<lambda>a b. start a \<le> start b) xs"
  by (simp add: adjacentAll_nth sorted_iff_nth_Suc)

lemma validIntervals_nth:
  "validIntervals xs = (\<forall>i<length xs. start (xs ! i) < endt (xs ! i))"
  by (simp add: validIntervals_def list_all_length)

lemma fill_sorted:
  assumes "validIntervals xs" and "sorted (map start xs)"
  shows "sorted (map start (fillSmallGapsIntelligent e xs))"
proof -
  have "adjacentAll (\<lambda>a b. start a \<le> start b) xs \<Longrightarrow> validIntervals xs
    \<Longrightarrow> adjacentAll (\<lambda>a b. start a \<le> start b) (fillSmallGapsIntelligent e xs)"
  proof (induction e xs rule: fillSmallGapsIntelligent.induct)
    case (1 e)
    then show ?case by simp
  next
    case (2 e a)
    then show ?case by simp
  next
    case (3 e a b rest)
    have hd: "fillSmallGapsIntelligent e (b # rest) \<noteq> []"
      "hd (fillSmallGapsIntelligent e (b # rest)) = b"
      using fill_hd [of "b # rest" e] by simp_all
    from 3 have ih: "adjacentAll (\<lambda>a b. start a \<le> start b) (fillSmallGapsIntelligent e (b # rest))"
      and ab: "start a \<le> start b" and va: "start a < endt a"
      by (auto simp add: validIntervals_def)
    show ?case
      using ih ab va hd isSmallGap_pos [of e a b] by (auto simp add: adjacentAll_Cons)
  qed
  with assms show ?thesis by (simp add: sorted_starts_adjacent)
qed

lemma normalizer_sorted_valid:
  assumes "validIntervals statusList"
  shows "sorted (map start (sort_key start (removeDuplicatesAdvanced statusList)))
     \<and> validIntervals (sort_key start (removeDuplicatesAdvanced statusList))"
proof -
  have "set (sort_key start (removeDuplicatesAdvanced statusList)) \<subseteq> set statusList"
    using removeDuplicates_filter_subset [of Map.empty statusList]
    by (simp add: removeDuplicatesAdvanced_def)
  with assms have "validIntervals (sort_key start (removeDuplicatesAdvanced statusList))"
    by (auto simp add: validIntervals_def list_all_iff)
  then show ?thesis by (simp add: sorted_sort_key)
qed

lemma resolverChain_inv:
  assumes "neverSplits e" and "sorted (map start xs)"
  shows "boundedOverlap 30000 (resolverChain e xs)"
    and "adjacentAll (\<lambda>a b. \<not> isSmallGap e a b) (resolverChain e xs)"
    and "validIntervals xs \<Longrightarrow> validIntervals (resolverChain e xs)"
    and "validIntervals xs \<Longrightarrow> sorted (map start (resolverChain e xs))"
proof -
  let ?r = "resolveOverlapsAdvanced e xs"
  let ?c = "consolidateConsecutiveAdvanced e ?r"
  let ?f = "fillSmallGapsIntelligent e ?c"
  have r: "sorted (map start ?r)" "boundedOverlap 30000 ?r"
    using resolveOverlapsAdvanced_inv [OF assms] by simp_all
  have f: "boundedOverlap 30000 ?f"
    using fill_bounded [OF _ consolidateConsecutiveAdvanced_bounded [OF r(2)]] by simp
  have len: "length (resolverChain e xs) = length ?f"
    by (simp add: resolverChain_def applyML_length)
  have st: "\<And>i. i < length ?f \<Longrightarrow> start (resolverChain e xs ! i) = start (?f ! i)"
    and en: "\<And>i. i < length ?f \<Longrightarrow> endt (resolverChain e xs ! i) = endt (?f ! i)"
    by (simp_all add: resolverChain_def applyML_bounds_nth)
  show "boundedOverlap 30000 (resolverChain e xs)"
    using f len st en by (simp add: boundedOverlap_def adjacentAll_nth)
  show "adjacentAll (\<lambda>a b. \<not> isSmallGap e a b) (resolverChain e xs)"
    using fill_no_small_gap [of e ?c] len st en
    by (simp add: adjacentAll_nth isSmallGap_def gapSeconds_def)
  {
    assume v: "validIntervals xs"
    have rv: "validIntervals ?r"
      using resolveOverlapsAdvanced_valid [OF assms v] .
    have cv: "sorted (map start ?c)" "validIntervals ?c"
      using consolidateConsecutiveAdvanced_sorted_valid [OF r(1) rv] by simp_all
    have fv: "validIntervals ?f" using fill_valid [OF cv(2)] .
    have fs: "sorted (map start ?f)" using fill_sorted [OF cv(2) cv(1)] .
    show "validIntervals (resolverChain e xs)"
      using fv len st en by (simp add: validIntervals_nth)
    show "sorted (map start (resolverChain e xs))"
      using fs by (simp add: resolverChain_def applyML_start)
  }
qed

section \<open>Verification: the resolved sequence\<close>

lemmas key_simps = dedupKey_def rawStatus_def showInt_def showNat.simps
  digitChar_def roundToMinute_def showOpt_def

lemma overlapExample_pipeline:
  "resolveStatusConflictsAdvanced (defaultEnv Outros) overlapExample = overlapExample"
proof -
  have n: "removeDuplicatesAdvanced overlapExample = overlapExample"
    by (simp add: removeDuplicatesAdvanced_def overlapExample_def key_simps)
  have s: "sort_key start overlapExample = overlapExample"
    by (simp add: overlapExample_def rawStatus_def)
  have r: "resolveOverlapsAdvanced (defaultEnv Outros) overlapExample = overlapExample"
    by (simp add: resolveOverlapsAdvanced_def overlapExample_def rawStatus_def)
  have c: "consolidateConsecutiveAdvanced (defaultEnv Outros) overlapExample = overlapExample"
    by (simp add: consolidateConsecutiveAdvanced_def overlapExample_def rawStatus_def
        shouldConsolidate_def Let_def areStatusesCompatible_def compatibleGroups_def)
  have f: "fillSmallGapsIntelligent (defaultEnv Outros) overlapExample = overlapExample"
    by (simp add: overlapExample_def rawStatus_def isSmallGap_def gapSeconds_def)
  have m: "applyMLOptimizations overlapExample = overlapExample"
    by (simp add: applyMLOptimizations_def overlapExample_def)
  have ne: "overlapExample \<noteq> []" by (simp add: overlapExample_def)
  show ?thesis
    by (simp add: resolveStatusConflictsAdvanced_def resolverChain_def ne n s r c f m)
qed

lemma scenarioE_pipeline:
  "resolveStatusConflictsAdvanced (defaultEnv Outros) scenarioE = scenarioE_resolved"
proof -
  have n: "removeDuplicatesAdvanced scenarioE = scenarioE"
    by (simp add: removeDuplicatesAdvanced_def scenarioE_def key_simps)
  have s: "sort_key start scenarioE = scenarioE"
    by (simp add: scenarioE_def rawStatus_def)
  have r: "resolveOverlapsAdvanced (defaultEnv Outros) scenarioE = scenarioE"
    by (simp add: resolveOverlapsAdvanced_def scenarioE_def rawStatus_def)
  have c: "consolidateConsecutiveAdvanced (defaultEnv Outros) scenarioE = scenarioE"
    by (simp add: consolidateConsecutiveAdvanced_def scenarioE_def rawStatus_def
        shouldConsolidate_def Let_def areStatusesCompatible_def compatibleGroups_def)
  have f: "fillSmallGapsIntelligent (defaultEnv Outros) scenarioE = scenarioE"
    by (simp add: scenarioE_def rawStatus_def isSmallGap_def gapSeconds_def)
  have m: "applyMLOptimizations scenarioE = scenarioE_resolved"
    by (simp add: applyMLOptimizations_def scenarioE_def scenarioE_resolved_def rawStatus_def
        isAnomalousSequence_iff correctAnomalousSequence_def Let_def)
  have ne: "scenarioE \<noteq> []" by (simp add: scenarioE_def)
  show ?thesis
    by (simp add: resolveStatusConflictsAdvanced_def resolverChain_def ne n s r c f m)
qed

lemma scenarioE_second_pass:
  "length (resolverChain (defaultEnv Outros) scenarioE_resolved) = 1"
proof -
  have r: "resolveOverlapsAdvanced (defaultEnv Outros) scenarioE_resolved = scenarioE_resolved"
    by (simp add: resolveOverlapsAdvanced_def scenarioE_resolved_def rawStatus_def)
  have t: "getAdaptiveTolerance (defaultEnv Outros) ''running'' ''running'' = 30"
    by (simp add: getAdaptiveTolerance_def toleranceRule_def defaultEnv_def)
  have c: "length (consolidateConsecutiveAdvanced (defaultEnv Outros) scenarioE_resolved) = 1"
    by (simp add: consolidateConsecutiveAdvanced_def scenarioE_resolved_def rawStatus_def
        shouldConsolidate_def Let_def compatible_running gapSeconds_def mergeStatusAdvanced_def)
  then obtain x where x: "consolidateConsecutiveAdvanced (defaultEnv Outros) scenarioE_resolved = [x]"
    by (cases "consolidateConsecutiveAdvanced (defaultEnv Outros) scenarioE_resolved") auto
  show ?thesis
    by (simp add: resolverChain_def r x applyMLOptimizations_def)
qed

text \<open>
  Claim C1, as stated, fails: the resolver treats an overlap of at most 30 seconds as no
  overlap (\<^verbatim>\<open>overlapThreshold = 30000\<close>) and leaves both records as they are. On
  \<open>overlapExample\<close> (valid records overlapping by 20 seconds, statuses that the
  consolidator does not merge) the first resolved interval ends after the second starts.
\<close>

theorem C1_overlap_counterexample:
  "validIntervals overlapExample
   \<and> Suc 0 < length (resolveStatusConflictsAdvanced (defaultEnv Outros) overlapExample)
   \<and> \<not> endt (resolveStatusConflictsAdvanced (defaultEnv Outros) overlapExample ! 0)
         \<le> start (resolveStatusConflictsAdvanced (defaultEnv Outros) overlapExample ! Suc 0)"
  by (simp add: overlapExample_pipeline)
    (simp add: overlapExample_def rawStatus_def validIntervals_def)

text \<open>
  Claim C1, amended: for input records that all have start before end, and a resolver
  that takes no split action (\<open>neverSplits\<close>: any strategy but \<^verbatim>\<open>intelligent\<close>, or
  that one with no cached pattern above 0.7), the resolved sequence of an asset is
  ordered by start time, every interval has start before end, and each interval ends at
  most 30 seconds (the overlap tolerance) after its successor starts:
  \<open>resolved[i].end \<le> resolved[i+1].start + 30000\<close>.
\<close>

theorem C1_resolved_overlap_bounded:
  assumes "validIntervals statusList"
    and "neverSplits e"
  shows "(\<forall>i. Suc i < length (resolveStatusConflictsAdvanced e statusList) \<longrightarrow>
            endt (resolveStatusConflictsAdvanced e statusList ! i)
              \<le> start (resolveStatusConflictsAdvanced e statusList ! Suc i) + 30000
            \<and> start (resolveStatusConflictsAdvanced e statusList ! i)
              \<le> start (resolveStatusConflictsAdvanced e statusList ! Suc i))
     \<and> (\<forall>i < length (resolveStatusConflictsAdvanced e statusList).
            start (resolveStatusConflictsAdvanced e statusList ! i)
              < endt (resolveStatusConflictsAdvanced e statusList ! i))"
proof (cases "statusList = []")
  case True
  then show ?thesis by (simp add: resolveStatusConflictsAdvanced_def)
next
  case False
  let ?n = "sort_key start (removeDuplicatesAdvanced statusList)"
  have n: "sorted (map start ?n)" "validIntervals ?n"
    using normalizer_sorted_valid [OF assms(1)] by simp_all
  have eq: "resolveStatusConflictsAdvanced e statusList = resolverChain e ?n"
    using False by (simp add: resolveStatusConflictsAdvanced_def)
  have "boundedOverlap 30000 (resolverChain e ?n)"
    "validIntervals (resolverChain e ?n)" "sorted (map start (resolverChain e ?n))"
    using resolverChain_inv [OF assms(2) n(1)] n(2) by simp_all
  then show ?thesis
    unfolding eq by (simp add: boundedOverlap_def adjacentAll_nth validIntervals_nth sorted_starts_adjacent)
qed

text \<open>Witness for C1: the bound holds, with room, on \<open>overlapExample\<close>.\<close>

theorem C1_resolved_overlap_bounded_witness:
  "validIntervals overlapExample
   \<and> neverSplits (defaultEnv Outros)
   \<and> endt (resolveStatusConflictsAdvanced (defaultEnv Outros) overlapExample ! 0)
        \<le> start (resolveStatusConflictsAdvanced (defaultEnv Outros) overlapExample ! Suc 0) + 30000
   \<and> start (resolveStatusConflictsAdvanced (defaultEnv Outros) overlapExample ! 0)
        < endt (resolveStatusConflictsAdvanced (defaultEnv Outros) overlapExample ! 0)"
proof -
  have v: "validIntervals overlapExample"
    by (simp add: overlapExample_def rawStatus_def validIntervals_def)
  have s: "neverSplits (defaultEnv Outros)"
    by (simp add: neverSplits_def defaultEnv_def)
  have l: "length (resolveStatusConflictsAdvanced (defaultEnv Outros) overlapExample) = 2"
    by (simp add: overlapExample_pipeline) (simp add: overlapExample_def)
  show ?thesis
    using C1_resolved_overlap_bounded [OF v s] v s l by simp
qed

text \<open>
  Claim C5, as stated, fails: the first run on Scenario E relabels the middle interval
  running, and a second run of the chain on that output consolidates the three running
  intervals into one.
\<close>

theorem C5_second_pass_counterexample:
  "resolverChain (defaultEnv Outros)
     (resolveStatusConflictsAdvanced (defaultEnv Outros) scenarioE)
   \<noteq> resolveStatusConflictsAdvanced (defaultEnv Outros) scenarioE"
proof -
  have "length (resolveStatusConflictsAdvanced (defaultEnv Outros) scenarioE) = 3"
    by (simp add: scenarioE_pipeline) (simp add: scenarioE_resolved_def)
  moreover have "length (resolverChain (defaultEnv Outros)
      (resolveStatusConflictsAdvanced (defaultEnv Outros) scenarioE)) = 1"
    by (simp add: scenarioE_pipeline scenarioE_second_pass)
  ultimately show ?thesis by auto
qed

text \<open>
  Claim C5, amended: with a resolver that takes no split action (\<open>neverSplits\<close>),
  when no two consecutive intervals of a run's output meet the consolidation condition,
  running the chain again on that output returns it unchanged, and so does each stage
  alone: no conflict is resolved, nothing is merged, no filler is inserted and no status
  is rewritten. (A first run can leave pairs that meet the condition: on Scenario E the
  corrected interval takes the status of the two neighbours it touches.)
\<close>

theorem C5_second_pass_identity:
  assumes "neverSplits e"
    and "\<forall>i. Suc i < length (resolveStatusConflictsAdvanced e statusList) \<longrightarrow>
           \<not> shouldConsolidate e (resolveStatusConflictsAdvanced e statusList ! i)
                (resolveStatusConflictsAdvanced e statusList ! Suc i)"
  shows "resolveOverlapsAdvanced e (resolveStatusConflictsAdvanced e statusList)
           = resolveStatusConflictsAdvanced e statusList
     \<and> consolidateConsecutiveAdvanced e (resolveStatusConflictsAdvanced e statusList)
           = resolveStatusConflictsAdvanced e statusList
     \<and> fillSmallGapsIntelligent e (resolveStatusConflictsAdvanced e statusList)
           = resolveStatusConflictsAdvanced e statusList
     \<and> applyMLOptimizations (resolveStatusConflictsAdvanced e statusList)
           = resolveStatusConflictsAdvanced e statusList
     \<and> resolverChain e (resolveStatusConflictsAdvanced e statusList)
           = resolveStatusConflictsAdvanced e statusList"
proof -
  let ?out = "resolveStatusConflictsAdvanced e statusList"
  let ?n = "sort_key start (removeDuplicatesAdvanced statusList)"
  have b: "boundedOverlap 30000 ?out \<and> adjacentAll (\<lambda>a b. \<not> isSmallGap e a b) ?out
      \<and> applyMLOptimizations ?out = ?out"
  proof (cases "statusList = []")
    case True
    then show ?thesis
      by (simp add: resolveStatusConflictsAdvanced_def boundedOverlap_def applyMLOptimizations_def)
  next
    case False
    then have eq: "?out = resolverChain e ?n"
      by (simp add: resolveStatusConflictsAdvanced_def)
    have "sorted (map start ?n)" by (simp add: sorted_sort_key)
    from resolverChain_inv(1,2) [OF assms(1) this] show ?thesis
      unfolding eq by (simp add: resolverChain_def applyML_idempotent)
  qed
  have r: "resolveOverlapsAdvanced e ?out = ?out"
    using b by (simp add: resolveOverlaps_identity)
  have c: "consolidateConsecutiveAdvanced e ?out = ?out"
    using assms(2) by (simp add: consolidate_identity adjacentAll_nth)
  have f: "fillSmallGapsIntelligent e ?out = ?out"
    using b by (simp add: fill_identity)
  show ?thesis
    using r c f b by (simp add: resolverChain_def)
qed

text \<open>Witness for C5: the output of \<open>overlapExample\<close> is a fixed point of the chain.\<close>

theorem C5_second_pass_identity_witness:
  "neverSplits (defaultEnv Outros)
   \<and> length (resolveStatusConflictsAdvanced (defaultEnv Outros) overlapExample) = 2
   \<and> \<not> shouldConsolidate (defaultEnv Outros)
         (resolveStatusConflictsAdvanced (defaultEnv Outros) overlapExample ! 0)
         (resolveStatusConflictsAdvanced (defaultEnv Outros) overlapExample ! Suc 0)
   \<and> resolverChain (defaultEnv Outros)
         (resolveStatusConflictsAdvanced (defaultEnv Outros) overlapExample)
       = resolveStatusConflictsAdvanced (defaultEnv Outros) overlapExample"
proof -
  let ?out = "resolveStatusConflictsAdvanced (defaultEnv Outros) overlapExample"
  have s: "neverSplits (defaultEnv Outros)"
    by (simp add: neverSplits_def defaultEnv_def)
  have l: "length ?out = 2"
    by (simp add: overlapExample_pipeline) (simp add: overlapExample_def)
  have n: "\<not> shouldConsolidate (defaultEnv Outros) (?out ! 0) (?out ! Suc 0)"
    by (simp add: overlapExample_pipeline)
      (simp add: overlapExample_def rawStatus_def shouldConsolidate_def Let_def
        areStatusesCompatible_def compatibleGroups_def)
  have h: "\<forall>i. Suc i < length ?out \<longrightarrow> \<not> shouldConsolidate (defaultEnv Outros) (?out ! i) (?out ! Suc i)"
    using l n by (auto simp add: less_Suc_eq)
  show ?thesis
    using C5_second_pass_identity [OF s h] s l n by simp
qed

section \<open>Verification: AnomalyCorrector\<close>

text \<open>
  Claim C6: the corrector keeps the length of the sequence and every start and end.
  At the middle \<open>i\<close> of an anomalous triplet the record differs from the input record
  in its status fields only: the status is the one \<^verbatim>\<open>findMostLikelyStatus\<close> picks among
  the two neighbours, which is the status both neighbours share; the title comes from
  the same call; \<^verbatim>\<open>anomaly_corrected\<close> is true, \<^verbatim>\<open>original_status\<close> holds the status that
  was replaced, and the confidence is 0.6. Every other record is the input record. Among
  two neighbours \<^verbatim>\<open>findMostLikelyStatus\<close> returns the status of the first unless the
  second agrees with it, so a tie goes to the first.
\<close>

theorem C6_corrector_frame:
  "length (applyMLOptimizations xs) = length xs
   \<and> map start (applyMLOptimizations xs) = map start xs
   \<and> map endt (applyMLOptimizations xs) = map endt xs
   \<and> (\<forall>i<length xs.
         (anomalousAt xs i \<longrightarrow>
            status (xs ! (i - 1)) = status (xs ! Suc i)
            \<and> fst (findMostLikelyStatus [xs ! (i - 1), xs ! Suc i]) = status (xs ! (i - 1))
            \<and> applyMLOptimizations xs ! i =
                (xs ! i)\<lparr>status := fst (findMostLikelyStatus [xs ! (i - 1), xs ! Suc i]),
                         status_title :=
                           Some (snd (findMostLikelyStatus [xs ! (i - 1), xs ! Suc i])),
                         anomaly_corrected := True,
                         original_status := Some (status (xs ! i)),
                         confidence := Some (6/10)\<rparr>)
         \<and> (\<not> anomalousAt xs i \<longrightarrow> applyMLOptimizations xs ! i = xs ! i))
   \<and> fst (findMostLikelyStatus [p, n]) = status p"
proof -
  have "\<forall>i<length xs.
         (anomalousAt xs i \<longrightarrow>
            status (xs ! (i - 1)) = status (xs ! Suc i)
            \<and> fst (findMostLikelyStatus [xs ! (i - 1), xs ! Suc i]) = status (xs ! (i - 1))
            \<and> applyMLOptimizations xs ! i =
                (xs ! i)\<lparr>status := fst (findMostLikelyStatus [xs ! (i - 1), xs ! Suc i]),
                         status_title :=
                           Some (snd (findMostLikelyStatus [xs ! (i - 1), xs ! Suc i])),
                         anomaly_corrected := True,
                         original_status := Some (status (xs ! i)),
                         confidence := Some (6/10)\<rparr>)
         \<and> (\<not> anomalousAt xs i \<longrightarrow> applyMLOptimizations xs ! i = xs ! i)"
  proof (intro allI impI conjI)
    fix i assume "i < length xs" and a: "anomalousAt xs i"
    from a show "status (xs ! (i - 1)) = status (xs ! Suc i)"
      by (auto simp add: anomalousAt_def isAnomalousSequence_iff)
    show "fst (findMostLikelyStatus [xs ! (i - 1), xs ! Suc i]) = status (xs ! (i - 1))"
      by (rule mostLikely_pair)
    from \<open>i < length xs\<close> a
    show "applyMLOptimizations xs ! i =
        (xs ! i)\<lparr>status := fst (findMostLikelyStatus [xs ! (i - 1), xs ! Suc i]),
                 status_title := Some (snd (findMostLikelyStatus [xs ! (i - 1), xs ! Suc i])),
                 anomaly_corrected := True,
                 original_status := Some (status (xs ! i)),
                 confidence := Some (6/10)\<rparr>"
      by (simp add: applyML_nth correct_fields mostLikely_pair del: findMostLikelyStatus.simps)
  next
    fix i assume "i < length xs" and "\<not> anomalousAt xs i"
    then show "applyMLOptimizations xs ! i = xs ! i"
      by (simp add: applyML_nth)
  qed
  then show ?thesis
    using applyML_length [of xs] applyML_start [of xs] applyML_endt [of xs]
      mostLikely_pair [of p n]
    by (simp del: findMostLikelyStatus.simps)
qed

text \<open>
  Witness for C6, Scenario E: the stopped interval of 5 seconds between two running
  intervals is relabelled running, with the original status kept; the first interval
  is not the middle of a triplet and passes through.
\<close>

theorem C6_corrector_frame_witness:
  "anomalousAt scenarioE 1
   \<and> applyMLOptimizations scenarioE ! 1 =
       (scenarioE ! 1)\<lparr>status := ''running'', status_title := Some ''running'',
                       anomaly_corrected := True, original_status := Some ''stopped'',
                       confidence := Some (6/10)\<rparr>
   \<and> \<not> anomalousAt scenarioE 0
   \<and> applyMLOptimizations scenarioE ! 0 = scenarioE ! 0"
proof -
  have a: "anomalousAt scenarioE 1" "\<not> anomalousAt scenarioE 0" "(1::nat) < length scenarioE"
    "(0::nat) < length scenarioE"
    by (simp_all add: anomalousAt_def scenarioE_def rawStatus_def isAnomalousSequence_iff)
  have f: "findMostLikelyStatus [scenarioE ! (1 - 1), scenarioE ! Suc 1] = (''running'', ''running'')"
    by (simp add: scenarioE_def rawStatus_def Let_def)
  have o: "status (scenarioE ! 1) = ''stopped''"
    by (simp add: scenarioE_def rawStatus_def)
  from C6_corrector_frame [of scenarioE]
  have "\<forall>i<length scenarioE.
         (anomalousAt scenarioE i \<longrightarrow>
            applyMLOptimizations scenarioE ! i =
                (scenarioE ! i)\<lparr>status := fst (findMostLikelyStatus [scenarioE ! (i - 1), scenarioE ! Suc i]),
                         status_title :=
                           Some (snd (findMostLikelyStatus [scenarioE ! (i - 1), scenarioE ! Suc i])),
                         anomaly_corrected := True,
                         original_status := Some (status (scenarioE ! i)),
                         confidence := Some (6/10)\<rparr>)
         \<and> (\<not> anomalousAt scenarioE i \<longrightarrow> applyMLOptimizations scenarioE ! i = scenarioE ! i)"
    by blast
  from this [rule_format, of 1] this [rule_format, of 0] a f o
  show ?thesis by (simp del: findMostLikelyStatus.simps)
qed

section \<open>Verification: ClassificationEngine\<close>

lemma andThen_Inr [simp]: "andThen (Inr v) f = f v"
  by (simp add: andThen_def)

lemma andThen_Inl [simp]: "andThen (Inl e) f = Inl e"
  by (simp add: andThen_def)

lemmas sample_simps = sampleModule_def sampleRules_def sampleGlobalSettings_def
  samplePlatform_def utcTimeString_def pad2_def showNat.simps digitChar_def
  layerGuard_def lookupModifier_def getIndex_def logged_def valLe_def strLe_def
  inheritedProp_def objectPrototypeFunctions_def


















text \<open>
  An activity code that names a member of \<^verbatim>\<open>Object.prototype\<close> finds that member in
  every table that has no entry of its own for it: at 20:00 the night-shift modifiers
  give the function \<^verbatim>\<open>Object\<close> for the code \<^verbatim>\<open>constructor\<close>, which is truthy and so is
  the result.
\<close>

lemma evaluateRules_inherited_member:
  "evaluateRules samplePlatform sampleModule (JStr ''constructor'') ''status'' nightGroupContext
   = Inr (JFunction ''Object'')"
  by (simp add: evaluateRules_def timeLayer_def nightGroupContext_def applyTimeBasedRules_def
      inBusinessHours_def inNightShift_def sample_simps)









section \<open>Verification: RuleStore\<close>

text \<open>
  Claim C9 says that a document with an invalid class value in \<^verbatim>\<open>appointmentRules\<close> is
  rejected and the defaults substituted. \<^verbatim>\<open>validateAndMigrateRules\<close> checks the values of
  \<^verbatim>\<open>telemetryRules\<close> only: it accepts \<open>invalidAppointmentDoc\<close>, whose
  \<^verbatim>\<open>appointmentRules\<close> hold the class \<^verbatim>\<open>sometimes\<close>, and the loader installs that
  document as the live RuleSet.
\<close>

theorem C9_invalid_appointment_class_accepted:
  "validateAndMigrateRules sampleModule now invalidAppointmentDoc
     = Inr (True, invalidAppointmentDoc)
   \<and> rulesConfig (loadSavedOrDefaultRules sampleModule now None (Parsed invalidAppointmentDoc))
     = invalidAppointmentDoc
   \<and> getProp invalidAppointmentDoc ''appointmentRules''
     = Inr (JObj [(''Aguardando'', JStr ''sometimes'')])
   \<and> JStr ''sometimes'' \<notin> set validClassifications"
proof -
  have v: "validateAndMigrateRules sampleModule now invalidAppointmentDoc
     = Inr (True, invalidAppointmentDoc)"
    by (simp add: validateAndMigrateRules_def invalidAppointmentDoc_def requiredFields_def
        fieldPresent_def needsMigration_def valLess_def sampleModule_def validClassifications_def)
  show ?thesis
    by (simp add: v loadSavedOrDefaultRules_def loadRulesFromGitHub_def)
      (simp add: invalidAppointmentDoc_def validClassifications_def)
qed

lemma map_of_objSet:
  "map_of (objSet kvs k v) k' = (if k' = k then Some v else map_of kvs k')"
  by (induction kvs) auto

lemma setItem_stored:
  "setItem ls k v = Inr ls' \<Longrightarrow> items ls' = (items ls)(k \<mapsto> v)"
  by (auto simp add: setItem_def split: if_splits)

lemma updateRule_dirty:
  "truthy (rulesConfig m) \<Longrightarrow> fst (updateRule m ty k v) = Inr ()
   \<Longrightarrow> isDirty (snd (updateRule m ty k v))"
  by (auto simp add: updateRule_def Let_def split: sum.splits)

lemma updateRule_changed:
  "rulesConfig (snd (updateRule m ty k v)) \<noteq> rulesConfig m
   \<Longrightarrow> isDirty (snd (updateRule m ty k v))"
  by (auto simp add: updateRule_def Let_def split: sum.splits if_splits)

lemma autoAddRule_dirty:
  "fst (autoAddRule m ty k v) = Inr () \<Longrightarrow> isDirty (snd (autoAddRule m ty k v))"
  by (cases "ty = ''status''") (auto simp add: autoAddRule_def Let_def split: sum.splits)

lemma autoAddRule_changed:
  "rulesConfig (snd (autoAddRule m ty k v)) \<noteq> rulesConfig m
   \<Longrightarrow> isDirty (snd (autoAddRule m ty k v))"
  by (cases "ty = ''status''") (auto simp add: autoAddRule_def Let_def split: sum.splits)

lemma autoSaveTick_clears:
  "\<not> isDirty (fst (autoSaveTick now (m, ls)))"
  by (simp add: autoSaveTick_def split: prod.split)

lemma autoSaveTick_clean:
  "\<not> isDirty m \<Longrightarrow> autoSaveTick now (m, ls) = (m, ls)"
  by (simp add: autoSaveTick_def)

lemma autoSaveTick_backup_fails:
  "isDirty m \<Longrightarrow> setItem ls ''productivity_rules_backup'' (backup now m) = Inl e
   \<Longrightarrow> autoSaveTick now (m, ls) = (m\<lparr>isDirty := False\<rparr>, ls)"
  by (simp add: autoSaveTick_def saveRulesWithBackup_def)

lemma autoSaveTick_saved:
  "isDirty m \<Longrightarrow> truthy (rulesConfig m)
   \<Longrightarrow> setItem ls ''productivity_rules_backup'' (backup now m) = Inr ls1
   \<Longrightarrow> stampRules now m = (Inr (), doc)
   \<Longrightarrow> setItem ls1 ''productivity_rules_v2'' doc = Inr ls2
   \<Longrightarrow> autoSaveTick now (m, ls) = (m\<lparr>rulesConfig := doc, isDirty := False\<rparr>, ls2)"
  by (simp add: autoSaveTick_def saveRulesWithBackup_def saveRules_def)

lemma autoSaveTick_write_fails:
  "isDirty m \<Longrightarrow> truthy (rulesConfig m)
   \<Longrightarrow> setItem ls ''productivity_rules_backup'' (backup now m) = Inr ls1
   \<Longrightarrow> stampRules now m = (Inr (), doc)
   \<Longrightarrow> setItem ls1 ''productivity_rules_v2'' doc = Inl e
   \<Longrightarrow> autoSaveTick now (m, ls) = (m\<lparr>rulesConfig := doc, isDirty := False\<rparr>, ls1)"
  by (simp add: autoSaveTick_def saveRulesWithBackup_def saveRules_def)

lemma autoSaveTick_stamp_fails:
  "isDirty m \<Longrightarrow> truthy (rulesConfig m)
   \<Longrightarrow> setItem ls ''productivity_rules_backup'' (backup now m) = Inr ls1
   \<Longrightarrow> stampRules now m = (Inl e, doc)
   \<Longrightarrow> autoSaveTick now (m, ls) = (m\<lparr>rulesConfig := doc, isDirty := False\<rparr>, ls1)"
  by (simp add: autoSaveTick_def saveRulesWithBackup_def saveRules_def)

lemma autoSaveTick_nothing_loaded:
  "isDirty m \<Longrightarrow> \<not> truthy (rulesConfig m)
   \<Longrightarrow> setItem ls ''productivity_rules_backup'' (backup now m) = Inr ls1
   \<Longrightarrow> autoSaveTick now (m, ls) = (m\<lparr>isDirty := False\<rparr>, ls1)"
  by (simp add: autoSaveTick_def saveRulesWithBackup_def saveRules_def)

lemma stampRules_document:
  assumes "rulesConfig m = JObj kvs" and "map_of kvs ''metadata'' = Some (JObj meta)"
  shows "\<exists>doc. stampRules now m = (Inr (), JObj doc)
           \<and> map_of doc ''lastModified'' = Some (JStr now)
           \<and> map_of doc ''version'' = Some (JStr (version m))
           \<and> (\<forall>k. k \<noteq> ''lastModified'' \<and> k \<noteq> ''version'' \<and> k \<noteq> ''metadata''
                  \<longrightarrow> map_of doc k = map_of kvs k)"
  using assms by (simp add: stampRules_def map_of_objSet)

text \<open>
  Claim C10, as stated, fails: the timer clears the dirty flag after every attempt to
  save, also when a write to the store fails, and the next firing does not retry. With
  an unsaved edit and a storage that rejects every write, the flag is clear after the
  flush and nothing has been stored; with a storage that the backup fills, the backup
  is stored, the document is not, and the flag is clear as well. A second flush, on a
  storage that accepts every write, stores nothing.
\<close>

theorem C10_failed_write_counterexample:
  "isDirty dirtyModule
   \<and> \<not> isDirty (fst (autoSaveTick ''2024-01-01T00:00:00.000Z'' (dirtyModule, fullStorage)))
   \<and> items (snd (autoSaveTick ''2024-01-01T00:00:00.000Z'' (dirtyModule, fullStorage)))
        ''productivity_rules_v2'' = None
   \<and> \<not> isDirty (fst (autoSaveTick ''2024-01-01T00:00:00.000Z'' (dirtyModule, tightStorage)))
   \<and> items (snd (autoSaveTick ''2024-01-01T00:00:00.000Z'' (dirtyModule, tightStorage)))
        ''productivity_rules_v2'' = None
   \<and> items (snd (autoSaveTick ''2024-01-01T00:00:00.000Z'' (dirtyModule, tightStorage)))
        ''productivity_rules_backup''
        = Some (backup ''2024-01-01T00:00:00.000Z'' dirtyModule)
   \<and> items (snd (autoSaveTick ''2024-01-01T00:00:30.000Z''
        (fst (autoSaveTick ''2024-01-01T00:00:00.000Z'' (dirtyModule, fullStorage)),
         emptyStorage))) ''productivity_rules_v2'' = None"
proof -
  have f: "autoSaveTick ''2024-01-01T00:00:00.000Z'' (dirtyModule, fullStorage)
      = (dirtyModule\<lparr>isDirty := False\<rparr>, fullStorage)"
    by (simp add: autoSaveTick_def saveRulesWithBackup_def setItem_def dirtyModule_def
        fullStorage_def)
  have s: "fst (stampRules ''2024-01-01T00:00:00.000Z'' dirtyModule) = Inr ()"
    by (simp add: stampRules_def dirtyModule_def sampleModule_def sampleRules_def)
  have t: "snd (autoSaveTick ''2024-01-01T00:00:00.000Z'' (dirtyModule, tightStorage))
      = tightStorage\<lparr>items := Map.empty(''productivity_rules_backup''
            \<mapsto> backup ''2024-01-01T00:00:00.000Z'' dirtyModule)\<rparr>"
    using s
    by (cases "stampRules ''2024-01-01T00:00:00.000Z'' dirtyModule")
      (simp add: autoSaveTick_def saveRulesWithBackup_def saveRules_def setItem_def
        tightStorage_def dirtyModule_def sampleModule_def sampleRules_def)
  have n: "autoSaveTick ''2024-01-01T00:00:30.000Z'' (dirtyModule\<lparr>isDirty := False\<rparr>, emptyStorage)
      = (dirtyModule\<lparr>isDirty := False\<rparr>, emptyStorage)"
    by (simp add: autoSaveTick_def)
  show ?thesis
    by (simp add: f t n autoSaveTick_clears) (simp add: dirtyModule_def fullStorage_def emptyStorage_def)
qed

text \<open>
  Claim C10, amended. A rule edit and an auto-added rule that return, and every one
  that changes the document, set the dirty flag, and so does a reset to the defaults
  (conjuncts 1 to 5). A firing of the timer leaves the flag clear, does nothing when
  the flag is clear already, and so is followed by a firing that does nothing, whatever
  the storage then accepts (conjuncts 6 to 8). A firing with the flag set writes the
  backup first. When that write fails nothing is stored and the module is kept
  (conjunct 9). Otherwise the backup is stored and the document is stamped: when the
  write of the stamped document succeeds, it is the document stored under
  \<^verbatim>\<open>productivity_rules_v2\<close> (conjunct 10); when that write fails, the stored document
  is the one there was, and the module keeps the stamped document (conjunct 11); when
  the stamping raises, or no document is loaded, only the backup is written (conjuncts
  12 and 13). The stamped document of an object with an object \<^verbatim>\<open>metadata\<close> has the
  time under \<^verbatim>\<open>lastModified\<close>, the version, and every other field but \<^verbatim>\<open>metadata\<close> as
  the module has it, the rule tables with their edits among them (conjunct 14).
\<close>

theorem C10_flush_outcomes:
  "(truthy (rulesConfig m) \<and> fst (updateRule m ty k v) = Inr ()
        \<longrightarrow> isDirty (snd (updateRule m ty k v)))
   \<and> (rulesConfig (snd (updateRule m ty k v)) \<noteq> rulesConfig m
        \<longrightarrow> isDirty (snd (updateRule m ty k v)))
   \<and> (fst (autoAddRule m ty k v) = Inr () \<longrightarrow> isDirty (snd (autoAddRule m ty k v)))
   \<and> (rulesConfig (snd (autoAddRule m ty k v)) \<noteq> rulesConfig m
        \<longrightarrow> isDirty (snd (autoAddRule m ty k v)))
   \<and> isDirty (resetToDefaults m)
   \<and> \<not> isDirty (fst (autoSaveTick now (m, ls)))
   \<and> (\<not> isDirty m \<longrightarrow> autoSaveTick now (m, ls) = (m, ls))
   \<and> autoSaveTick now' (fst (autoSaveTick now (m, ls)), ls')
       = (fst (autoSaveTick now (m, ls)), ls')
   \<and> (isDirty m \<and> setItem ls ''productivity_rules_backup'' (backup now m) = Inl e
        \<longrightarrow> autoSaveTick now (m, ls) = (m\<lparr>isDirty := False\<rparr>, ls))
   \<and> (isDirty m \<and> truthy (rulesConfig m)
        \<and> setItem ls ''productivity_rules_backup'' (backup now m) = Inr ls1
        \<and> stampRules now m = (Inr (), doc)
        \<and> setItem ls1 ''productivity_rules_v2'' doc = Inr ls2
        \<longrightarrow> autoSaveTick now (m, ls) = (m\<lparr>rulesConfig := doc, isDirty := False\<rparr>, ls2)
            \<and> items ls2 ''productivity_rules_v2'' = Some doc
            \<and> items ls2 ''productivity_rules_backup'' = Some (backup now m))
   \<and> (isDirty m \<and> truthy (rulesConfig m)
        \<and> setItem ls ''productivity_rules_backup'' (backup now m) = Inr ls1
        \<and> stampRules now m = (Inr (), doc)
        \<and> setItem ls1 ''productivity_rules_v2'' doc = Inl e
        \<longrightarrow> autoSaveTick now (m, ls) = (m\<lparr>rulesConfig := doc, isDirty := False\<rparr>, ls1)
            \<and> items ls1 ''productivity_rules_v2'' = items ls ''productivity_rules_v2''
            \<and> items ls1 ''productivity_rules_backup'' = Some (backup now m))
   \<and> (isDirty m \<and> truthy (rulesConfig m)
        \<and> setItem ls ''productivity_rules_backup'' (backup now m) = Inr ls1
        \<and> stampRules now m = (Inl e, doc)
        \<longrightarrow> autoSaveTick now (m, ls) = (m\<lparr>rulesConfig := doc, isDirty := False\<rparr>, ls1)
            \<and> items ls1 ''productivity_rules_v2'' = items ls ''productivity_rules_v2'')
   \<and> (isDirty m \<and> \<not> truthy (rulesConfig m)
        \<and> setItem ls ''productivity_rules_backup'' (backup now m) = Inr ls1
        \<longrightarrow> autoSaveTick now (m, ls) = (m\<lparr>isDirty := False\<rparr>, ls1)
            \<and> items ls1 ''productivity_rules_v2'' = items ls ''productivity_rules_v2'')
   \<and> (rulesConfig m = JObj kvs \<and> map_of kvs ''metadata'' = Some (JObj meta)
        \<longrightarrow> (\<exists>stamped. stampRules now m = (Inr (), JObj stamped)
              \<and> map_of stamped ''lastModified'' = Some (JStr now)
              \<and> map_of stamped ''version'' = Some (JStr (version m))
              \<and> (\<forall>f. f \<noteq> ''lastModified'' \<and> f \<noteq> ''version'' \<and> f \<noteq> ''metadata''
                     \<longrightarrow> map_of stamped f = map_of kvs f)))"
proof (intro conjI impI; (elim conjE)?)
  assume "truthy (rulesConfig m)" "fst (updateRule m ty k v) = Inr ()"
  then show "isDirty (snd (updateRule m ty k v))" by (rule updateRule_dirty)
next
  assume "rulesConfig (snd (updateRule m ty k v)) \<noteq> rulesConfig m"
  then show "isDirty (snd (updateRule m ty k v))" by (rule updateRule_changed)
next
  assume "fst (autoAddRule m ty k v) = Inr ()"
  then show "isDirty (snd (autoAddRule m ty k v))" by (rule autoAddRule_dirty)
next
  assume "rulesConfig (snd (autoAddRule m ty k v)) \<noteq> rulesConfig m"
  then show "isDirty (snd (autoAddRule m ty k v))" by (rule autoAddRule_changed)
next
  show "isDirty (resetToDefaults m)" by (simp add: resetToDefaults_def installDefaults_def)
next
  show "\<not> isDirty (fst (autoSaveTick now (m, ls)))" by (rule autoSaveTick_clears)
next
  assume "\<not> isDirty m"
  then show "autoSaveTick now (m, ls) = (m, ls)" by (rule autoSaveTick_clean)
next
  show "autoSaveTick now' (fst (autoSaveTick now (m, ls)), ls')
       = (fst (autoSaveTick now (m, ls)), ls')"
    using autoSaveTick_clears by (rule autoSaveTick_clean)
next
  assume "isDirty m" "setItem ls ''productivity_rules_backup'' (backup now m) = Inl e"
  then show "autoSaveTick now (m, ls) = (m\<lparr>isDirty := False\<rparr>, ls)"
    by (rule autoSaveTick_backup_fails)
next
  assume h: "isDirty m" "truthy (rulesConfig m)"
    "setItem ls ''productivity_rules_backup'' (backup now m) = Inr ls1"
    "stampRules now m = (Inr (), doc)"
    "setItem ls1 ''productivity_rules_v2'' doc = Inr ls2"
  from h show "autoSaveTick now (m, ls) = (m\<lparr>rulesConfig := doc, isDirty := False\<rparr>, ls2)"
    by (rule autoSaveTick_saved)
  from h(5) show "items ls2 ''productivity_rules_v2'' = Some doc"
    by (simp add: setItem_stored)
  from h(3,5) show "items ls2 ''productivity_rules_backup'' = Some (backup now m)"
    by (simp add: setItem_stored)
next
  assume h: "isDirty m" "truthy (rulesConfig m)"
    "setItem ls ''productivity_rules_backup'' (backup now m) = Inr ls1"
    "stampRules now m = (Inr (), doc)"
    "setItem ls1 ''productivity_rules_v2'' doc = Inl e"
  from h show "autoSaveTick now (m, ls) = (m\<lparr>rulesConfig := doc, isDirty := False\<rparr>, ls1)"
    by (rule autoSaveTick_write_fails)
  from h(3) show "items ls1 ''productivity_rules_v2'' = items ls ''productivity_rules_v2''"
    by (simp add: setItem_stored)
  from h(3) show "items ls1 ''productivity_rules_backup'' = Some (backup now m)"
    by (simp add: setItem_stored)
next
  assume h: "isDirty m" "truthy (rulesConfig m)"
    "setItem ls ''productivity_rules_backup'' (backup now m) = Inr ls1"
    "stampRules now m = (Inl e, doc)"
  from h show "autoSaveTick now (m, ls) = (m\<lparr>rulesConfig := doc, isDirty := False\<rparr>, ls1)"
    by (rule autoSaveTick_stamp_fails)
  from h(3) show "items ls1 ''productivity_rules_v2'' = items ls ''productivity_rules_v2''"
    by (simp add: setItem_stored)
next
  assume h: "isDirty m" "\<not> truthy (rulesConfig m)"
    "setItem ls ''productivity_rules_backup'' (backup now m) = Inr ls1"
  from h show "autoSaveTick now (m, ls) = (m\<lparr>isDirty := False\<rparr>, ls1)"
    by (rule autoSaveTick_nothing_loaded)
  from h(3) show "items ls1 ''productivity_rules_v2'' = items ls ''productivity_rules_v2''"
    by (simp add: setItem_stored)
next
  assume "rulesConfig m = JObj kvs" "map_of kvs ''metadata'' = Some (JObj meta)"
  then show "\<exists>stamped. stampRules now m = (Inr (), JObj stamped)
              \<and> map_of stamped ''lastModified'' = Some (JStr now)
              \<and> map_of stamped ''version'' = Some (JStr (version m))
              \<and> (\<forall>f. f \<noteq> ''lastModified'' \<and> f \<noteq> ''version'' \<and> f \<noteq> ''metadata''
                     \<longrightarrow> map_of stamped f = map_of kvs f)"
    by (rule stampRules_document)
qed

text \<open>
  Witness for C10: an edit of \<open>sampleModule\<close> sets the flag. A flush of \<open>dirtyModule\<close>
  on the storage that accepts every write stores the backup and the stamped document,
  whose rule tables are those of the module; on the storage that rejects every write it
  stores nothing; on the storage that the backup fills it stores the backup alone. Each
  of the three leaves the flag clear.
\<close>

theorem C10_flush_outcomes_witness:
  "isDirty (snd (updateRule sampleModule ''status'' ''stopped'' (JStr ''productive'')))
   \<and> autoSaveTick ''2024-01-01T00:00:00.000Z'' (dirtyModule, emptyStorage)
       = (dirtyModule\<lparr>rulesConfig := snd (stampRules ''2024-01-01T00:00:00.000Z'' dirtyModule),
                      isDirty := False\<rparr>,
          emptyStorage\<lparr>items := [''productivity_rules_backup''
                                    \<mapsto> backup ''2024-01-01T00:00:00.000Z'' dirtyModule,
                                  ''productivity_rules_v2''
                                    \<mapsto> snd (stampRules ''2024-01-01T00:00:00.000Z'' dirtyModule)]\<rparr>)
   \<and> getProp (snd (stampRules ''2024-01-01T00:00:00.000Z'' dirtyModule)) ''telemetryRules''
       = getProp (rulesConfig dirtyModule) ''telemetryRules''
   \<and> getProp (snd (stampRules ''2024-01-01T00:00:00.000Z'' dirtyModule)) ''lastModified''
       = Inr (JStr ''2024-01-01T00:00:00.000Z'')
   \<and> autoSaveTick ''2024-01-01T00:00:00.000Z'' (dirtyModule, fullStorage)
       = (dirtyModule\<lparr>isDirty := False\<rparr>, fullStorage)
   \<and> autoSaveTick ''2024-01-01T00:00:00.000Z'' (dirtyModule, tightStorage)
       = (dirtyModule\<lparr>rulesConfig := snd (stampRules ''2024-01-01T00:00:00.000Z'' dirtyModule),
                      isDirty := False\<rparr>,
          tightStorage\<lparr>items := [''productivity_rules_backup''
                                    \<mapsto> backup ''2024-01-01T00:00:00.000Z'' dirtyModule]\<rparr>)"
proof -
  let ?t = "''2024-01-01T00:00:00.000Z''"
  let ?doc = "snd (stampRules ?t dirtyModule)"
  let ?b = "[''productivity_rules_backup'' \<mapsto> backup ?t dirtyModule]"
  have u: "truthy (rulesConfig sampleModule)"
    "fst (updateRule sampleModule ''status'' ''stopped'' (JStr ''productive'')) = Inr ()"
    by (simp_all add: updateRule_def Let_def sampleModule_def sampleRules_def)
  have d: "isDirty dirtyModule" "truthy (rulesConfig dirtyModule)"
    by (simp_all add: dirtyModule_def sampleModule_def sampleRules_def)
  have "fst (stampRules ?t dirtyModule) = Inr ()"
    by (simp add: stampRules_def dirtyModule_def sampleModule_def sampleRules_def)
  then have s: "stampRules ?t dirtyModule = (Inr (), ?doc)"
    by (simp add: prod_eq_iff)
  have g: "getProp ?doc ''telemetryRules'' = getProp (rulesConfig dirtyModule) ''telemetryRules''"
    "getProp ?doc ''lastModified'' = Inr (JStr ?t)"
    by (simp_all add: stampRules_def dirtyModule_def sampleModule_def sampleRules_def)
  have e1: "setItem emptyStorage ''productivity_rules_backup'' (backup ?t dirtyModule)
      = Inr (emptyStorage\<lparr>items := ?b\<rparr>)"
    by (simp add: setItem_def emptyStorage_def)
  have e2: "setItem (emptyStorage\<lparr>items := ?b\<rparr>) ''productivity_rules_v2'' ?doc
      = Inr (emptyStorage\<lparr>items := ?b(''productivity_rules_v2'' \<mapsto> ?doc)\<rparr>)"
    by (simp add: setItem_def emptyStorage_def)
  have f1: "setItem fullStorage ''productivity_rules_backup'' (backup ?t dirtyModule)
      = Inl StorageError"
    by (simp add: setItem_def fullStorage_def)
  have t1: "setItem tightStorage ''productivity_rules_backup'' (backup ?t dirtyModule)
      = Inr (tightStorage\<lparr>items := ?b\<rparr>)"
    by (simp add: setItem_def tightStorage_def)
  have t2: "setItem (tightStorage\<lparr>items := ?b\<rparr>) ''productivity_rules_v2'' ?doc
      = Inl StorageError"
    by (simp add: setItem_def tightStorage_def)
  have 1: "isDirty (snd (updateRule sampleModule ''status'' ''stopped'' (JStr ''productive'')))"
    using C10_flush_outcomes [where m = sampleModule and ty = "''status''" and k = "''stopped''"
        and v = "JStr ''productive''"] u
    by simp
  have 2: "autoSaveTick ?t (dirtyModule, emptyStorage)
       = (dirtyModule\<lparr>rulesConfig := ?doc, isDirty := False\<rparr>,
          emptyStorage\<lparr>items := ?b(''productivity_rules_v2'' \<mapsto> ?doc)\<rparr>)"
    using C10_flush_outcomes [where m = dirtyModule and now = ?t and ls = emptyStorage
        and ?ls1.0 = "emptyStorage\<lparr>items := ?b\<rparr>" and doc = ?doc
        and ?ls2.0 = "emptyStorage\<lparr>items := ?b(''productivity_rules_v2'' \<mapsto> ?doc)\<rparr>"]
      d s e1 e2
    by simp
  have 3: "autoSaveTick ?t (dirtyModule, fullStorage) = (dirtyModule\<lparr>isDirty := False\<rparr>, fullStorage)"
    using C10_flush_outcomes [where m = dirtyModule and now = ?t and ls = fullStorage
        and e = StorageError] d f1
    by simp
  have 4: "autoSaveTick ?t (dirtyModule, tightStorage)
       = (dirtyModule\<lparr>rulesConfig := ?doc, isDirty := False\<rparr>, tightStorage\<lparr>items := ?b\<rparr>)"
    using C10_flush_outcomes [where m = dirtyModule and now = ?t and ls = tightStorage
        and ?ls1.0 = "tightStorage\<lparr>items := ?b\<rparr>" and doc = ?doc and e = StorageError]
      d s t1 t2
    by simp
  show ?thesis using 1 2 g 3 4 by simp
qed

end
